theory Spec2Isabelle
  imports Main "HOL-Library.Sublist"
begin

section \<open>Registry endpoint lookup (registry/service.go)\<close>

text \<open>
  A shallow embedding of \<^verbatim>\<open>Service.LookupPullEndpoints\<close>, \<^verbatim>\<open>Service.LookupPushEndpoints\<close>
  and the private \<^verbatim>\<open>lookupEndpoints\<close>, \<^verbatim>\<open>TLSConfig\<close> and \<^verbatim>\<open>tlsConfigForMirror\<close> of
  \<^verbatim>\<open>registry/service.go\<close>.

  Go strings are byte sequences and are modelled as \<open>string\<close> (a list of 8-bit characters).
  A \<^verbatim>\<open>*tls.Config\<close> is a pointer: it is modelled as an address into an explicit store of
  \<^verbatim>\<open>tls.Config\<close> values, so that two candidates sharing one policy object can be told apart
  from two candidates carrying equal policies. The diagnostic log file that
  \<^verbatim>\<open>lookupEndpoints\<close> opens and appends to is part of the state as well.
\<close>

subsection \<open>Data\<close>

text \<open>\<^verbatim>\<open>APIVersion\<close> with its three values (declared in \<^verbatim>\<open>registry/types.go\<close>).\<close>

datatype APIVersion = APIVersionUnknown | APIVersion1 | APIVersion2

text \<open>\<^verbatim>\<open>auth.APIVersion\<close>: a type and a version string.\<close>

record auth_APIVersion =
  auth_Type :: string
  auth_Version :: string

text \<open>
  \<^verbatim>\<open>tls.Config\<close>. The code reads one field, \<^verbatim>\<open>InsecureSkipVerify\<close>; the certificate
  material of a policy is kept as two lists of names.
\<close>

record tls_Config =
  InsecureSkipVerify :: bool
  RootCAs :: "string list"
  Certificates :: "string list"

text \<open>\<^verbatim>\<open>url.URL\<close>, the fields of a parsed mirror address.\<close>

record url_URL =
  Scheme :: string
  Host :: string
  Path :: string

type_synonym addr = nat

text \<open>\<^verbatim>\<open>APIEndpoint\<close>, field by field; \<open>TLSConfig\<close> holds the address of the policy object.\<close>

record APIEndpoint =
  Mirror :: bool
  URL :: string
  Version :: APIVersion
  Official :: bool
  TrimHostname :: bool
  TLSConfig :: addr
  VersionHeader :: string
  Versions :: "auth_APIVersion list"

text \<open>
  The errors \<^verbatim>\<open>lookupEndpoints\<close> can return, by origin: the \<^verbatim>\<open>fmt.Errorf\<close> of line 190
  with its message, an error of \<^verbatim>\<open>url.Parse\<close>, an error of \<^verbatim>\<open>newTLSConfig\<close>.
\<close>

datatype error = InvalidRepoName string | ParseError string | TLSConfigError string

text \<open>
  The lines \<^verbatim>\<open>logger.Printf\<close> writes, one constructor per call site, holding the
  arguments of the format string (the date, time and file prefix of each line is left out).
\<close>

datatype logmsg =
    LogRepoName string
  | LogMirror string
  | LogDefaultV2 string
  | LogDefaultV1 string
  | LogSecure string
  | LogInsecure string
  | LogFinal "APIEndpoint list"

text \<open>
  The state outside a call: the store of allocated \<^verbatim>\<open>tls.Config\<close> objects (an address is
  an index; allocation appends), whether \<^verbatim>\<open>/tmp/myDocker.log\<close> can be opened for appending
  (\<^verbatim>\<open>os.OpenFile\<close> with \<^verbatim>\<open>O_RDWR|O_CREATE|O_APPEND\<close> succeeds), and the lines that file
  holds, none when it does not exist yet.
\<close>

record world =
  tls_heap :: "tls_Config list"
  log_openable :: bool
  log_lines :: "logmsg list"

text \<open>
  What the service reads and \<^verbatim>\<open>service.go\<close> does not declare, taken as parameters:
  the configured mirrors (\<^verbatim>\<open>s.Config.Mirrors\<close>), the classification
  \<^verbatim>\<open>s.Config.isSecureIndex\<close>, \<^verbatim>\<open>newTLSConfig\<close> (returning the policy value or an error
  message), \<^verbatim>\<open>url.Parse\<close>, \<^verbatim>\<open>runtime.GOOS\<close>, \<^verbatim>\<open>tlsconfig.ServerDefault\<close> and the
  constants \<^verbatim>\<open>DefaultV2Registry\<close>, \<^verbatim>\<open>DefaultV1Registry\<close> and
  \<^verbatim>\<open>DefaultRegistryVersionHeader\<close>.
\<close>

record env =
  Mirrors :: "string list"
  isSecureIndex :: "string \<Rightarrow> bool"
  newTLSConfig :: "string \<Rightarrow> bool \<Rightarrow> string + tls_Config"
  url_Parse :: "string \<Rightarrow> string + url_URL"
  GOOS :: string
  ServerDefault :: tls_Config
  DefaultV2Registry :: string
  DefaultV1Registry :: string
  DefaultRegistryVersionHeader :: string

text \<open>
  Modelled from the spec: the constant \<^verbatim>\<open>DefaultNamespace\<close> is declared outside
  \<^verbatim>\<open>service.go\<close>; the spec gives its value, the default namespace prefix \<^verbatim>\<open>library\<close>.
\<close>

definition DefaultNamespace :: string where
  "DefaultNamespace = ''library''"

subsection \<open>Library functions\<close>

text \<open>\<^verbatim>\<open>strings.HasPrefix(s, prefix)\<close>: \<^verbatim>\<open>len(s) >= len(prefix) && s[0:len(prefix)] == prefix\<close>.\<close>

definition HasPrefix :: "string \<Rightarrow> string \<Rightarrow> bool" where
  "HasPrefix s pre = (length s \<ge> length pre \<and> take (length pre) s = pre)"

text \<open>
  \<^verbatim>\<open>strings.IndexRune(s, r)\<close> for a one-byte rune: the index of the first byte equal to
  \<open>r\<close>, or -1.
\<close>

fun IndexRune :: "string \<Rightarrow> char \<Rightarrow> int" where
  "IndexRune [] r = - 1"
| "IndexRune (c # cs) r =
     (if c = r then 0
      else (let i = IndexRune cs r in if i < 0 then - 1 else i + 1))"

text \<open>Taking the address of a fresh \<^verbatim>\<open>tls.Config\<close> value.\<close>

definition alloc :: "tls_Config \<Rightarrow> world \<Rightarrow> addr \<times> world" where
  "alloc c w = (length (tls_heap w), w\<lparr>tls_heap := tls_heap w @ [c]\<rparr>)"

text \<open>
  \<^verbatim>\<open>logger.Printf\<close> on the logger built over \<^verbatim>\<open>logFile\<close>: a line is appended when the
  file was opened; on a nil file the write fails and its error is dropped.
\<close>

definition Printf :: "bool \<Rightarrow> logmsg \<Rightarrow> world \<Rightarrow> world" where
  "Printf logFile m w = (if logFile then w\<lparr>log_lines := log_lines w @ [m]\<rparr> else w)"

subsection \<open>The service\<close>

text \<open>
  \<^verbatim>\<open>func (s *Service) TLSConfig(hostname string) (*tls.Config, error)\<close>:
  \<^verbatim>\<open>newTLSConfig(hostname, s.Config.isSecureIndex(hostname))\<close>.

  Modelled from the spec: \<^verbatim>\<open>newTLSConfig\<close> is declared outside \<^verbatim>\<open>service.go\<close>. By the
  spec a trust policy is computed on demand and not cached, so a successful call returns a
  pointer to a policy object of its own; a failing call returns nil and the error.
\<close>

definition Service_TLSConfig :: "env \<Rightarrow> string \<Rightarrow> world \<Rightarrow> (error + addr) \<times> world" where
  "Service_TLSConfig s hostname w =
     (case newTLSConfig s hostname (isSecureIndex s hostname) of
        Inl msg \<Rightarrow> (Inl (TLSConfigError msg), w)
      | Inr c \<Rightarrow> (case alloc c w of (p, w') \<Rightarrow> (Inr p, w')))"

definition tlsConfigForMirror :: "env \<Rightarrow> string \<Rightarrow> world \<Rightarrow> (error + addr) \<times> world" where
  "tlsConfigForMirror s mirror w =
     (case url_Parse s mirror of
        Inl msg \<Rightarrow> (Inl (ParseError msg), w)
      | Inr mirrorURL \<Rightarrow> Service_TLSConfig s (Host mirrorURL) w)"

text \<open>The loop over \<^verbatim>\<open>s.Config.Mirrors\<close> (lines 146 to 161), returning at the first error.\<close>

fun mirror_loop ::
  "env \<Rightarrow> bool \<Rightarrow> string list \<Rightarrow> APIEndpoint list \<Rightarrow> world \<Rightarrow> (error + APIEndpoint list) \<times> world"
where
  "mirror_loop s logFile [] endpoints w = (Inr endpoints, w)"
| "mirror_loop s logFile (mirror # rest) endpoints w =
     (case tlsConfigForMirror s mirror w of
        (Inl err, w1) \<Rightarrow> (Inl err, w1)
      | (Inr mirrorTLSConfig, w1) \<Rightarrow>
          mirror_loop s logFile rest
            (endpoints @
              [\<lparr>Mirror = True, URL = mirror, Version = APIVersion2, Official = False,
                TrimHostname = True, TLSConfig = mirrorTLSConfig, VersionHeader = [],
                Versions = []\<rparr>])
            (Printf logFile (LogMirror mirror) w1))"

text \<open>The branch for the default namespace (lines 164 to 185).\<close>

definition official_endpoints ::
  "env \<Rightarrow> bool \<Rightarrow> addr \<Rightarrow> APIEndpoint list \<Rightarrow> world \<Rightarrow> (error + APIEndpoint list) \<times> world"
where
  "official_endpoints s logFile tlsConfig endpoints0 w0 =
     (let w1 = Printf logFile (LogDefaultV2 (DefaultV2Registry s)) w0;
          endpoints1 = endpoints0 @
            [\<lparr>Mirror = False, URL = DefaultV2Registry s, Version = APIVersion2, Official = True,
              TrimHostname = True, TLSConfig = tlsConfig, VersionHeader = [], Versions = []\<rparr>];
          (endpoints2, w2) =
            (if GOOS s = ''linux''
             then (endpoints1 @
                    [\<lparr>Mirror = False, URL = DefaultV1Registry s, Version = APIVersion1,
                      Official = True, TrimHostname = True, TLSConfig = tlsConfig,
                      VersionHeader = [], Versions = []\<rparr>],
                   Printf logFile (LogDefaultV1 (DefaultV1Registry s)) w1)
             else (endpoints1, w1))
      in (Inr endpoints2, Printf logFile (LogFinal endpoints2) w2))"

text \<open>The candidates of an explicit host (lines 188 to 243).\<close>

definition host_endpoints ::
  "env \<Rightarrow> bool \<Rightarrow> string \<Rightarrow> APIEndpoint list \<Rightarrow> world \<Rightarrow> (error + APIEndpoint list) \<times> world"
where
  "host_endpoints s logFile repoName endpoints0 w0 =
     (let slashIndex = IndexRune repoName CHR ''/'' in
      if slashIndex \<le> 0
      then (Inl (InvalidRepoName (''invalid repo name: missing '/':  '' @ repoName)), w0)
      else
        (let hostname = take (nat slashIndex) repoName in
         case Service_TLSConfig s hostname w0 of
          (Inl err, w1) \<Rightarrow> (Inl err, w1)
        | (Inr tlsConfig, w1) \<Rightarrow>
            let isSecure = \<not> InsecureSkipVerify (tls_heap w1 ! tlsConfig);
                v2Versions = [\<lparr>auth_Type = ''registry'', auth_Version = ''2.0''\<rparr>];
                w2 = Printf logFile (LogSecure (''https://'' @ hostname)) w1;
                endpoints1 = endpoints0 @
                  [\<lparr>Mirror = False, URL = ''https://'' @ hostname, Version = APIVersion2,
                    Official = False, TrimHostname = True, TLSConfig = tlsConfig,
                    VersionHeader = DefaultRegistryVersionHeader s, Versions = v2Versions\<rparr>,
                   \<lparr>Mirror = False, URL = ''https://'' @ hostname, Version = APIVersion1,
                    Official = False, TrimHostname = True, TLSConfig = tlsConfig,
                    VersionHeader = [], Versions = []\<rparr>];
                (endpoints2, w3) =
                  (if \<not> isSecure
                   then (endpoints1 @
                          [\<lparr>Mirror = False, URL = ''http://'' @ hostname, Version = APIVersion2,
                            Official = False, TrimHostname = True, TLSConfig = tlsConfig,
                            VersionHeader = DefaultRegistryVersionHeader s,
                            Versions = v2Versions\<rparr>,
                           \<lparr>Mirror = False, URL = ''http://'' @ hostname, Version = APIVersion1,
                            Official = False, TrimHostname = True, TLSConfig = tlsConfig,
                            VersionHeader = [], Versions = []\<rparr>],
                         Printf logFile (LogInsecure (''http://'' @ hostname)) w2)
                   else (endpoints1, w2))
            in (Inr endpoints2, Printf logFile (LogFinal endpoints2) w3)))"

text \<open>
  \<^verbatim>\<open>func (s *Service) lookupEndpoints(repoName string)\<close>: the address of a copy of
  \<^verbatim>\<open>tlsconfig.ServerDefault\<close> is taken, the log file is opened (the error of
  \<^verbatim>\<open>os.OpenFile\<close> is dropped, so \<open>logFile\<close> is an open file or nil) and the name is
  logged; then the mirrors, then one of the two branches. The deferred
  \<^verbatim>\<open>logFile.Close()\<close> leaves the lines written in the file.
\<close>

definition lookupEndpoints :: "env \<Rightarrow> string \<Rightarrow> world \<Rightarrow> (error + APIEndpoint list) \<times> world" where
  "lookupEndpoints s repoName w0 =
     (let (tlsConfig, w1) = alloc (ServerDefault s) w0;
          logFile = log_openable w1;
          w2 = Printf logFile (LogRepoName repoName) w1
      in (case mirror_loop s logFile (Mirrors s) [] w2 of
            (Inl err, w3) \<Rightarrow> (Inl err, w3)
          | (Inr endpoints, w3) \<Rightarrow>
              if HasPrefix repoName (DefaultNamespace @ ''/'')
              then official_endpoints s logFile tlsConfig endpoints w3
              else host_endpoints s logFile repoName endpoints w3))"

definition LookupPullEndpoints ::
  "env \<Rightarrow> string \<Rightarrow> world \<Rightarrow> (error + APIEndpoint list) \<times> world"
where
  "LookupPullEndpoints s repoName w = lookupEndpoints s repoName w"

text \<open>The loop of \<^verbatim>\<open>LookupPushEndpoints\<close> over \<^verbatim>\<open>allEndpoints\<close> (lines 127 to 131).\<close>

fun push_loop :: "APIEndpoint list \<Rightarrow> APIEndpoint list \<Rightarrow> APIEndpoint list" where
  "push_loop [] endpoints = endpoints"
| "push_loop (endpoint # rest) endpoints =
     (if \<not> Mirror endpoint then push_loop rest (endpoints @ [endpoint])
      else push_loop rest endpoints)"

definition LookupPushEndpoints ::
  "env \<Rightarrow> string \<Rightarrow> world \<Rightarrow> (error + APIEndpoint list) \<times> world"
where
  "LookupPushEndpoints s repoName w =
     (case lookupEndpoints s repoName w of
        (Inr allEndpoints, w') \<Rightarrow> (Inr (push_loop allEndpoints []), w')
      | (Inl err, w') \<Rightarrow> (Inl err, w'))"

subsection \<open>Notions used to state the properties\<close>

text \<open>
  The outcome of \<open>tlsConfigForMirror\<close> for one mirror with the policy value in place of
  its address: the parse error, the error of \<^verbatim>\<open>newTLSConfig\<close>, or the policy resolved
  for the mirror's own host. It does not depend on the state.
\<close>

definition mirror_policy :: "env \<Rightarrow> string \<Rightarrow> error + tls_Config" where
  "mirror_policy s mirror =
     (case url_Parse s mirror of
        Inl msg \<Rightarrow> Inl (ParseError msg)
      | Inr mirrorURL \<Rightarrow>
          (case newTLSConfig s (Host mirrorURL) (isSecureIndex s (Host mirrorURL)) of
             Inl msg \<Rightarrow> Inl (TLSConfigError msg)
           | Inr c \<Rightarrow> Inr c))"

text \<open>Trust resolution succeeds for every configured mirror.\<close>

definition mirrors_resolve :: "env \<Rightarrow> bool" where
  "mirrors_resolve s = list_all (\<lambda>m. \<not> isl (mirror_policy s m)) (Mirrors s)"

text \<open>
  The mirror candidates for the mirrors \<open>ms\<close>, their policy objects at the consecutive
  addresses \<open>p\<close>, \<open>p + 1\<close>, ...
\<close>

definition mirror_candidates :: "addr \<Rightarrow> string list \<Rightarrow> APIEndpoint list" where
  "mirror_candidates p ms =
     map (\<lambda>(q, m). \<lparr>Mirror = True, URL = m, Version = APIVersion2, Official = False,
                    TrimHostname = True, TLSConfig = q, VersionHeader = [], Versions = []\<rparr>)
       (enumerate p ms)"

definition mirror_policies :: "env \<Rightarrow> string list \<Rightarrow> tls_Config list" where
  "mirror_policies s ms = map (\<lambda>m. projr (mirror_policy s m)) ms"

text \<open>The state once the mirror loop has gone through all mirrors.\<close>

definition after_mirrors :: "env \<Rightarrow> string \<Rightarrow> world \<Rightarrow> world" where
  "after_mirrors s repoName w =
     w\<lparr>tls_heap := tls_heap w @ ServerDefault s # mirror_policies s (Mirrors s),
       log_lines := log_lines w @
         (if log_openable w then LogRepoName repoName # map LogMirror (Mirrors s) else [])\<rparr>"

text \<open>The host segment of a repository name: \<^verbatim>\<open>repoName[:slashIndex]\<close>.\<close>

definition repo_hostname :: "string \<Rightarrow> string" where
  "repo_hostname repoName = take (nat (IndexRune repoName CHR ''/'')) repoName"

text \<open>
  The candidates appended for an explicit host whose policy object is at \<open>q\<close>, and the
  candidates appended for the default namespace, the default policy being at \<open>p\<close>.
\<close>

definition host_candidates :: "env \<Rightarrow> string \<Rightarrow> addr \<Rightarrow> bool \<Rightarrow> APIEndpoint list" where
  "host_candidates s host q insecure =
       [\<lparr>Mirror = False, URL = ''https://'' @ host, Version = APIVersion2, Official = False,
         TrimHostname = True, TLSConfig = q,
         VersionHeader = DefaultRegistryVersionHeader s,
         Versions = [\<lparr>auth_Type = ''registry'', auth_Version = ''2.0''\<rparr>]\<rparr>,
        \<lparr>Mirror = False, URL = ''https://'' @ host, Version = APIVersion1, Official = False,
         TrimHostname = True, TLSConfig = q, VersionHeader = [],
         Versions = []\<rparr>] @
       (if insecure
        then [\<lparr>Mirror = False, URL = ''http://'' @ host, Version = APIVersion2,
                Official = False, TrimHostname = True, TLSConfig = q,
                VersionHeader = DefaultRegistryVersionHeader s,
                Versions = [\<lparr>auth_Type = ''registry'', auth_Version = ''2.0''\<rparr>]\<rparr>,
              \<lparr>Mirror = False, URL = ''http://'' @ host, Version = APIVersion1,
                Official = False, TrimHostname = True, TLSConfig = q,
                VersionHeader = [], Versions = []\<rparr>]
        else [])"

definition official_candidates :: "env \<Rightarrow> addr \<Rightarrow> APIEndpoint list" where
  "official_candidates s p =
       \<lparr>Mirror = False, URL = DefaultV2Registry s, Version = APIVersion2, Official = True,
         TrimHostname = True, TLSConfig = p, VersionHeader = [], Versions = []\<rparr> #
       (if GOOS s = ''linux''
        then [\<lparr>Mirror = False, URL = DefaultV1Registry s, Version = APIVersion1,
                Official = True, TrimHostname = True, TLSConfig = p, VersionHeader = [],
                Versions = []\<rparr>]
        else [])"

text \<open>
  What a step may do to the state: the log file stays as openable as it was, the objects
  already allocated stay where they are with their values, the lines already logged stay,
  and without an open log file no line is added.
\<close>

definition frame :: "bool \<Rightarrow> world \<Rightarrow> world \<Rightarrow> bool" where
  "frame lf w w' =
     (log_openable w' = log_openable w \<and> prefix (tls_heap w) (tls_heap w') \<and>
      prefix (log_lines w) (log_lines w') \<and> (lf \<or> log_lines w' = log_lines w))"

text \<open>
  A candidate as a caller sees it, with the policy object read through the pointer, and a
  result seen that way: this is the equality of \<^verbatim>\<open>reflect.DeepEqual\<close> on two results.
\<close>

definition candidate_view ::
  "world \<Rightarrow> APIEndpoint \<Rightarrow>
     bool \<times> string \<times> APIVersion \<times> bool \<times> bool \<times> tls_Config \<times> string \<times> auth_APIVersion list"
where
  "candidate_view w e =
     (Mirror e, URL e, Version e, Official e, TrimHostname e, tls_heap w ! TLSConfig e,
      VersionHeader e, Versions e)"

definition result_view ::
  "(error + APIEndpoint list) \<times> world \<Rightarrow>
     error + (bool \<times> string \<times> APIVersion \<times> bool \<times> bool \<times> tls_Config \<times> string \<times>
       auth_APIVersion list) list"
where
  "result_view r = map_sum id (map (candidate_view (snd r))) (fst r)"

subsection \<open>Example configurations\<close>

text \<open>
  A configuration with one mirror served over plain HTTP, one host declared insecure, and
  a \<^verbatim>\<open>newTLSConfig\<close> that sets \<^verbatim>\<open>InsecureSkipVerify\<close> to the negation of the
  classification.
\<close>

definition example_env :: env where
  "example_env =
     \<lparr>Mirrors = [''http://mirror.example''],
      isSecureIndex = (\<lambda>hostname. hostname \<noteq> ''insecure.example''),
      newTLSConfig = (\<lambda>hostname isSecure.
         Inr \<lparr>InsecureSkipVerify = \<not> isSecure, RootCAs = [], Certificates = []\<rparr>),
      url_Parse = (\<lambda>rawurl.
         if HasPrefix rawurl ''http://''
         then Inr \<lparr>Scheme = ''http'', Host = drop 7 rawurl, Path = []\<rparr>
         else Inl ''missing protocol scheme''),
      GOOS = ''linux'',
      ServerDefault = \<lparr>InsecureSkipVerify = False, RootCAs = [], Certificates = []\<rparr>,
      DefaultV2Registry = ''https://registry-1.docker.io'',
      DefaultV1Registry = ''https://index.docker.io'',
      DefaultRegistryVersionHeader = ''Docker-Distribution-Api-Version''\<rparr>"

text \<open>The same with a second mirror whose address does not parse.\<close>

definition broken_mirror_env :: env where
  "broken_mirror_env = example_env\<lparr>Mirrors := [''http://mirror.example'', '':mirror'']\<rparr>"

text \<open>A state with nothing allocated and an empty log file that can be opened.\<close>

definition example_world :: world where
  "example_world = \<lparr>tls_heap = [], log_openable = True, log_lines = []\<rparr>"

section \<open>Auxiliary facts\<close>

subsection \<open>The mirror loop\<close>

lemma tlsConfigForMirror_policy:
  "tlsConfigForMirror s m w =
     (case mirror_policy s m of
        Inl e \<Rightarrow> (Inl e, w)
      | Inr c \<Rightarrow> (Inr (length (tls_heap w)), w\<lparr>tls_heap := tls_heap w @ [c]\<rparr>))"
  by (simp add: tlsConfigForMirror_def Service_TLSConfig_def mirror_policy_def alloc_def
      split: sum.splits)

lemma mirror_loop_resolved:
  "list_all (\<lambda>m. \<not> isl (mirror_policy s m)) ms \<Longrightarrow>
   mirror_loop s lf ms eps w =
     (Inr (eps @ mirror_candidates (length (tls_heap w)) ms),
      w\<lparr>tls_heap := tls_heap w @ mirror_policies s ms,
        log_lines := log_lines w @ (if lf then map LogMirror ms else [])\<rparr>)"
proof (induction ms arbitrary: eps w)
  case Nil
  then show ?case by (simp add: mirror_candidates_def mirror_policies_def)
next
  case (Cons m ms)
  from Cons.prems obtain c where c: "mirror_policy s m = Inr c"
    by (cases "mirror_policy s m") auto
  from Cons.prems have rest: "list_all (\<lambda>m. \<not> isl (mirror_policy s m)) ms" by simp
  show ?case
    by (simp add: tlsConfigForMirror_policy c Cons.IH [OF rest] Printf_def
        mirror_candidates_def mirror_policies_def)
qed

lemma mirror_loop_fails:
  "list_all (\<lambda>m. \<not> isl (mirror_policy s m)) pre \<Longrightarrow> mirror_policy s m = Inl e \<Longrightarrow>
   fst (mirror_loop s lf (pre @ m # post) eps w) = Inl e"
proof (induction pre arbitrary: eps w)
  case Nil
  then show ?case by (simp add: tlsConfigForMirror_policy)
next
  case (Cons a pre)
  from Cons.prems obtain c where c: "mirror_policy s a = Inr c"
    by (cases "mirror_policy s a") auto
  from Cons.prems have rest: "list_all (\<lambda>m. \<not> isl (mirror_policy s m)) pre" by simp
  show ?case
    using Cons.IH [OF rest Cons.prems(2)] by (simp add: tlsConfigForMirror_policy c)
qed

subsection \<open>Lookup once the mirrors are resolved, and when one fails\<close>

lemma lookupEndpoints_resolved:
  assumes "mirrors_resolve s"
  shows "lookupEndpoints s repoName w =
     (if HasPrefix repoName (DefaultNamespace @ ''/'')
      then official_endpoints s (log_openable w) (length (tls_heap w))
             (mirror_candidates (Suc (length (tls_heap w))) (Mirrors s))
             (after_mirrors s repoName w)
      else host_endpoints s (log_openable w) repoName
             (mirror_candidates (Suc (length (tls_heap w))) (Mirrors s))
             (after_mirrors s repoName w))"
  using assms
  by (simp add: lookupEndpoints_def alloc_def Printf_def mirrors_resolve_def
      mirror_loop_resolved after_mirrors_def)

lemma lookupEndpoints_mirror_fails:
  assumes "Mirrors s = pre @ m # post"
    and "list_all (\<lambda>m. \<not> isl (mirror_policy s m)) pre"
    and "mirror_policy s m = Inl e"
  shows "fst (lookupEndpoints s repoName w) = Inl e"
proof -
  let ?w2 = "Printf (log_openable w) (LogRepoName repoName)
               (w\<lparr>tls_heap := tls_heap w @ [ServerDefault s]\<rparr>)"
  have "fst (mirror_loop s (log_openable w) (Mirrors s) [] ?w2) = Inl e"
    unfolding assms(1) by (rule mirror_loop_fails [OF assms(2,3)])
  then show ?thesis
    by (cases "mirror_loop s (log_openable w) (Mirrors s) [] ?w2")
       (simp add: lookupEndpoints_def alloc_def Printf_def)
qed

lemma first_failing_mirror:
  assumes "\<not> mirrors_resolve s"
  shows "\<exists>pre m post e. Mirrors s = pre @ m # post \<and>
           list_all (\<lambda>m. \<not> isl (mirror_policy s m)) pre \<and> mirror_policy s m = Inl e"
proof -
  from assms have ex: "\<exists>m\<in>set (Mirrors s). isl (mirror_policy s m)"
    by (simp add: mirrors_resolve_def list_all_iff)
  from split_list_first_prop [OF ex] obtain pre m post where
    d: "Mirrors s = pre @ m # post" "isl (mirror_policy s m)"
       "\<forall>y\<in>set pre. \<not> isl (mirror_policy s y)"
    by blast
  from d(2) obtain e where e: "mirror_policy s m = Inl e"
    by (cases "mirror_policy s m") simp_all
  from d(3) have "list_all (\<lambda>m. \<not> isl (mirror_policy s m)) pre"
    by (simp add: list_all_iff)
  with d(1) e show ?thesis by blast
qed

lemma lookupEndpoints_unresolved:
  assumes "\<not> mirrors_resolve s"
  shows "\<exists>m e. m \<in> set (Mirrors s) \<and> mirror_policy s m = Inl e \<and>
           (\<forall>repoName w. fst (lookupEndpoints s repoName w) = Inl e)"
proof -
  from first_failing_mirror [OF assms] obtain pre m post e where
    d: "Mirrors s = pre @ m # post" "list_all (\<lambda>m. \<not> isl (mirror_policy s m)) pre"
       "mirror_policy s m = Inl e" by blast
  have all: "\<forall>repoName w. fst (lookupEndpoints s repoName w) = Inl e"
    using lookupEndpoints_mirror_fails [OF d] by simp
  from d(1) have "m \<in> set (Mirrors s)" by simp
  with d(3) all show ?thesis by blast
qed

subsection \<open>Strings\<close>

lemma IndexRune_lower: "- 1 \<le> IndexRune t c"
  by (induction t) (auto simp: Let_def)

lemma IndexRune_absent: "IndexRune t c = - 1 \<longleftrightarrow> c \<notin> set t"
proof (induction t)
  case Nil
  then show ?case by simp
next
  case (Cons a t)
  have "- 1 \<le> IndexRune t c" by (rule IndexRune_lower)
  with Cons show ?case by (auto simp: Let_def)
qed

lemma IndexRune_first: "c \<notin> set h \<Longrightarrow> IndexRune (h @ c # t) c = int (length h)"
  by (induction h) (auto simp: Let_def)

lemma IndexRune_nonpositive:
  "IndexRune t CHR ''/'' \<le> 0 \<longleftrightarrow> CHR ''/'' \<notin> set t \<or> HasPrefix t ''/''"
proof (cases t)
  case Nil
  then show ?thesis by (simp add: HasPrefix_def)
next
  case (Cons a u)
  have lo: "- 1 \<le> IndexRune u CHR ''/''" by (rule IndexRune_lower)
  have ab: "IndexRune u CHR ''/'' = - 1 \<longleftrightarrow> CHR ''/'' \<notin> set u" by (rule IndexRune_absent)
  show ?thesis
  proof (cases "a = CHR ''/''")
    case True
    with Cons show ?thesis by (simp add: HasPrefix_def)
  next
    case False
    with Cons lo ab show ?thesis by (auto simp: HasPrefix_def Let_def)
  qed
qed

subsection \<open>The two branches\<close>

lemma length_mirror_candidates [simp]: "length (mirror_candidates p ms) = length ms"
  by (simp add: mirror_candidates_def)

lemma length_mirror_policies [simp]: "length (mirror_policies s ms) = length ms"
  by (simp add: mirror_policies_def)

lemma tls_heap_Printf [simp]: "tls_heap (Printf lf m w) = tls_heap w"
  by (simp add: Printf_def)

lemma log_openable_Printf [simp]: "log_openable (Printf lf m w) = log_openable w"
  by (simp add: Printf_def)

lemma host_endpoints_invalid:
  "IndexRune repoName CHR ''/'' \<le> 0 \<Longrightarrow>
   host_endpoints s lf repoName eps w =
     (Inl (InvalidRepoName (''invalid repo name: missing '/':  '' @ repoName)), w)"
  by (simp add: host_endpoints_def)

lemma official_endpoints_heap:
  "tls_heap (snd (official_endpoints s lf p eps w)) = tls_heap w"
  by (simp add: official_endpoints_def Let_def)

lemma repo_hostname_first:
  "CHR ''/'' \<notin> set host \<Longrightarrow> repo_hostname (host @ CHR ''/'' # rest) = host"
  by (simp add: repo_hostname_def IndexRune_first)

lemma host_endpoints_tls_fails:
  assumes "0 < IndexRune repoName CHR ''/''"
    and "newTLSConfig s (repo_hostname repoName) (isSecureIndex s (repo_hostname repoName)) = Inl msg"
  shows "host_endpoints s lf repoName eps w = (Inl (TLSConfigError msg), w)"
  using assms
  by (simp add: host_endpoints_def repo_hostname_def Service_TLSConfig_def)

lemma host_endpoints_ok_fst:
  assumes "0 < IndexRune repoName CHR ''/''"
    and "newTLSConfig s (repo_hostname repoName) (isSecureIndex s (repo_hostname repoName)) = Inr c"
  shows "fst (host_endpoints s lf repoName eps w) =
     Inr (eps @ host_candidates s (repo_hostname repoName) (length (tls_heap w))
                  (InsecureSkipVerify c))"
  using assms
  by (simp add: host_endpoints_def repo_hostname_def Service_TLSConfig_def alloc_def Let_def
      host_candidates_def)

lemma host_endpoints_ok_heap:
  assumes "0 < IndexRune repoName CHR ''/''"
    and "newTLSConfig s (repo_hostname repoName) (isSecureIndex s (repo_hostname repoName)) = Inr c"
  shows "tls_heap (snd (host_endpoints s lf repoName eps w)) = tls_heap w @ [c]"
  using assms
  by (simp add: host_endpoints_def repo_hostname_def Service_TLSConfig_def alloc_def Let_def)

lemma official_endpoints_ok_fst:
  "fst (official_endpoints s lf p eps w) = Inr (eps @ official_candidates s p)"
  by (simp add: official_endpoints_def Let_def official_candidates_def)

subsection \<open>What a call changes\<close>

lemma frame_refl: "frame lf w w"
  by (simp add: frame_def)

lemma frame_trans: "frame lf w w1 \<Longrightarrow> frame lf w1 w2 \<Longrightarrow> frame lf w w2"
  unfolding frame_def by (metis prefix_order.order_trans)

lemma frame_alloc: "frame lf w (snd (alloc c w))"
  by (simp add: frame_def alloc_def)

lemma frame_Printf: "frame lf w (Printf lf m w)"
  by (simp add: frame_def Printf_def)

lemma frame_Service_TLSConfig: "frame lf w (snd (Service_TLSConfig s h w))"
  by (simp add: Service_TLSConfig_def alloc_def frame_def split: sum.splits)

lemma frame_tlsConfigForMirror: "frame lf w (snd (tlsConfigForMirror s m w))"
  by (simp add: tlsConfigForMirror_def frame_Service_TLSConfig frame_refl split: sum.splits)

lemma frame_mirror_loop: "frame lf w (snd (mirror_loop s lf ms eps w))"
proof (induction ms arbitrary: eps w)
  case Nil
  show ?case by (simp add: frame_refl)
next
  case (Cons m ms)
  obtain r w1 where t: "tlsConfigForMirror s m w = (r, w1)" by (cases "tlsConfigForMirror s m w")
  have f1: "frame lf w w1" using frame_tlsConfigForMirror [of lf w s m] t by simp
  show ?case
  proof (cases r)
    case (Inl e)
    with t f1 show ?thesis by simp
  next
    case (Inr p)
    have "frame lf w1 (Printf lf (LogMirror m) w1)" by (rule frame_Printf)
    with f1 have "frame lf w (Printf lf (LogMirror m) w1)" by (rule frame_trans)
    then show ?thesis using t Inr Cons.IH frame_trans by simp
  qed
qed

lemma frame_official_endpoints: "frame lf w (snd (official_endpoints s lf p eps w))"
  by (simp add: official_endpoints_def Let_def frame_def Printf_def)

lemma frame_host_endpoints: "frame lf w (snd (host_endpoints s lf n eps w))"
  by (simp add: host_endpoints_def Let_def frame_def Printf_def Service_TLSConfig_def alloc_def
      split: sum.splits)

lemma frame_lookupEndpoints:
  "frame (log_openable w) (Printf (log_openable w) (LogRepoName repoName) (snd (alloc (ServerDefault s) w)))
     (snd (lookupEndpoints s repoName w))"
proof -
  let ?lf = "log_openable w"
  let ?w2 = "Printf ?lf (LogRepoName repoName) (snd (alloc (ServerDefault s) w))"
  obtain r w3 where m: "mirror_loop s ?lf (Mirrors s) [] ?w2 = (r, w3)"
    by (cases "mirror_loop s ?lf (Mirrors s) [] ?w2")
  have f: "frame ?lf ?w2 w3" using frame_mirror_loop [of ?lf ?w2 s "Mirrors s" "[]"] m by simp
  show ?thesis
  proof (cases r)
    case (Inl e)
    with m f show ?thesis by (simp add: lookupEndpoints_def alloc_def)
  next
    case (Inr eps)
    have "frame ?lf w3 (snd (official_endpoints s ?lf (length (tls_heap w)) eps w3))"
      by (rule frame_official_endpoints)
    with f have o: "frame ?lf ?w2 (snd (official_endpoints s ?lf (length (tls_heap w)) eps w3))"
      by (rule frame_trans)
    have "frame ?lf w3 (snd (host_endpoints s ?lf repoName eps w3))"
      by (rule frame_host_endpoints)
    with f have h: "frame ?lf ?w2 (snd (host_endpoints s ?lf repoName eps w3))"
      by (rule frame_trans)
    from m Inr o h show ?thesis by (simp add: lookupEndpoints_def alloc_def Let_def)
  qed
qed

subsection \<open>Reading the candidates through their pointers\<close>

lemma nth_mirror_candidates:
  "i < length ms \<Longrightarrow>
   mirror_candidates p ms ! i =
     \<lparr>Mirror = True, URL = ms ! i, Version = APIVersion2, Official = False,
      TrimHostname = True, TLSConfig = p + i, VersionHeader = [], Versions = []\<rparr>"
  by (simp add: mirror_candidates_def nth_enumerate_eq)

lemma view_mirror_candidates:
  assumes "tls_heap w' = h @ d # mirror_policies s ms @ extra"
  shows "map (candidate_view w') (mirror_candidates (Suc (length h)) ms) =
         map (\<lambda>m. (True, m, APIVersion2, False, True, projr (mirror_policy s m), [], [])) ms"
proof (rule nth_equalityI)
  show "length (map (candidate_view w') (mirror_candidates (Suc (length h)) ms)) =
        length (map (\<lambda>m. (True, m, APIVersion2, False, True, projr (mirror_policy s m), [], [])) ms)"
    by simp
next
  fix i
  assume "i < length (map (candidate_view w') (mirror_candidates (Suc (length h)) ms))"
  then have i: "i < length ms" by simp
  then have "(h @ d # mirror_policies s ms @ extra) ! (Suc (length h) + i) =
             projr (mirror_policy s (ms ! i))"
    by (simp add: nth_append mirror_policies_def)
  with i show "map (candidate_view w') (mirror_candidates (Suc (length h)) ms) ! i =
        map (\<lambda>m. (True, m, APIVersion2, False, True, projr (mirror_policy s m), [], [])) ms ! i"
    by (simp add: candidate_view_def nth_mirror_candidates assms)
qed

subsection \<open>The cases of a lookup\<close>

lemma tls_heap_after_mirrors:
  "tls_heap (after_mirrors s repoName w) =
     tls_heap w @ ServerDefault s # mirror_policies s (Mirrors s)"
  by (simp add: after_mirrors_def)

lemma lookupEndpoints_official_fst:
  assumes "mirrors_resolve s" and "HasPrefix repoName (DefaultNamespace @ ''/'')"
  shows "fst (lookupEndpoints s repoName w) =
     Inr (mirror_candidates (Suc (length (tls_heap w))) (Mirrors s) @
          official_candidates s (length (tls_heap w)))"
  using assms by (simp add: lookupEndpoints_resolved official_endpoints_ok_fst)

lemma lookupEndpoints_official_heap:
  assumes "mirrors_resolve s" and "HasPrefix repoName (DefaultNamespace @ ''/'')"
  shows "tls_heap (snd (lookupEndpoints s repoName w)) =
     tls_heap w @ ServerDefault s # mirror_policies s (Mirrors s)"
  using assms
  by (simp add: lookupEndpoints_resolved official_endpoints_heap tls_heap_after_mirrors)

lemma lookupEndpoints_invalid:
  assumes "mirrors_resolve s" and "\<not> HasPrefix repoName (DefaultNamespace @ ''/'')"
    and "IndexRune repoName CHR ''/'' \<le> 0"
  shows "fst (lookupEndpoints s repoName w) =
     Inl (InvalidRepoName (''invalid repo name: missing '/':  '' @ repoName))"
  using assms by (simp add: lookupEndpoints_resolved host_endpoints_invalid)

lemma lookupEndpoints_tls_fails:
  assumes "mirrors_resolve s" and "\<not> HasPrefix repoName (DefaultNamespace @ ''/'')"
    and "0 < IndexRune repoName CHR ''/''"
    and "newTLSConfig s (repo_hostname repoName) (isSecureIndex s (repo_hostname repoName)) =
           Inl msg"
  shows "fst (lookupEndpoints s repoName w) = Inl (TLSConfigError msg)"
  using assms by (simp add: lookupEndpoints_resolved host_endpoints_tls_fails)

lemma lookupEndpoints_host_fst:
  assumes "mirrors_resolve s" and "\<not> HasPrefix repoName (DefaultNamespace @ ''/'')"
    and "0 < IndexRune repoName CHR ''/''"
    and "newTLSConfig s (repo_hostname repoName) (isSecureIndex s (repo_hostname repoName)) =
           Inr c"
  shows "fst (lookupEndpoints s repoName w) =
     Inr (mirror_candidates (Suc (length (tls_heap w))) (Mirrors s) @
          host_candidates s (repo_hostname repoName)
            (Suc (length (tls_heap w) + length (Mirrors s))) (InsecureSkipVerify c))"
  using assms
  by (simp add: lookupEndpoints_resolved host_endpoints_ok_fst tls_heap_after_mirrors)

lemma lookupEndpoints_host_heap:
  assumes "mirrors_resolve s" and "\<not> HasPrefix repoName (DefaultNamespace @ ''/'')"
    and "0 < IndexRune repoName CHR ''/''"
    and "newTLSConfig s (repo_hostname repoName) (isSecureIndex s (repo_hostname repoName)) =
           Inr c"
  shows "tls_heap (snd (lookupEndpoints s repoName w)) =
     tls_heap w @ ServerDefault s # mirror_policies s (Mirrors s) @ [c]"
  using assms
  by (simp add: lookupEndpoints_resolved host_endpoints_ok_heap tls_heap_after_mirrors)

lemma no_mirror_official: "list_all (\<lambda>e. \<not> Mirror e) (official_candidates s p)"
  by (simp add: official_candidates_def)

lemma no_mirror_host: "list_all (\<lambda>e. \<not> Mirror e) (host_candidates s host q b)"
  by (simp add: host_candidates_def)

lemma lookupEndpoints_success_resolves:
  assumes "fst (lookupEndpoints s repoName w) = Inr out"
  shows "mirrors_resolve s"
proof (rule ccontr)
  assume "\<not> mirrors_resolve s"
  from lookupEndpoints_unresolved [OF this] obtain e where
    "fst (lookupEndpoints s repoName w) = Inl e" by blast
  with assms show False by simp
qed

lemma lookupEndpoints_shape:
  assumes "fst (lookupEndpoints s repoName w) = Inr out"
  shows "\<exists>tail extra.
     out = mirror_candidates (Suc (length (tls_heap w))) (Mirrors s) @ tail \<and>
     list_all (\<lambda>e. \<not> Mirror e) tail \<and>
     tls_heap (snd (lookupEndpoints s repoName w)) =
       tls_heap w @ ServerDefault s # mirror_policies s (Mirrors s) @ extra"
proof -
  have res: "mirrors_resolve s" using assms by (rule lookupEndpoints_success_resolves)
  show ?thesis
  proof (cases "HasPrefix repoName (DefaultNamespace @ ''/'')")
    case True
    have "out = mirror_candidates (Suc (length (tls_heap w))) (Mirrors s) @
            official_candidates s (length (tls_heap w))"
      using assms lookupEndpoints_official_fst [OF res True, of w] by simp
    moreover have "tls_heap (snd (lookupEndpoints s repoName w)) =
        tls_heap w @ ServerDefault s # mirror_policies s (Mirrors s) @ []"
      using lookupEndpoints_official_heap [OF res True, of w] by simp
    ultimately show ?thesis using no_mirror_official by blast
  next
    case False
    have pos: "0 < IndexRune repoName CHR ''/''"
    proof (rule ccontr)
      assume "\<not> 0 < IndexRune repoName CHR ''/''"
      then have "IndexRune repoName CHR ''/'' \<le> 0" by simp
      from lookupEndpoints_invalid [OF res False this, of w] assms show False by simp
    qed
    show ?thesis
    proof (cases "newTLSConfig s (repo_hostname repoName) (isSecureIndex s (repo_hostname repoName))")
      case (Inl msg)
      from lookupEndpoints_tls_fails [OF res False pos Inl, of w] assms show ?thesis by simp
    next
      case (Inr c)
      have "out = mirror_candidates (Suc (length (tls_heap w))) (Mirrors s) @
            host_candidates s (repo_hostname repoName)
              (Suc (length (tls_heap w) + length (Mirrors s))) (InsecureSkipVerify c)"
        using assms lookupEndpoints_host_fst [OF res False pos Inr, of w] by simp
      moreover note lookupEndpoints_host_heap [OF res False pos Inr, of w]
      ultimately show ?thesis using no_mirror_host by blast
    qed
  qed
qed

lemma push_loop_filter: "push_loop es acc = acc @ filter (\<lambda>e. \<not> Mirror e) es"
  by (induction es arbitrary: acc) simp_all

lemma mirror_policy_not_invalid: "mirror_policy s m \<noteq> Inl (InvalidRepoName msg)"
  by (simp add: mirror_policy_def split: sum.splits)

lemma find_first:
  "list_all (\<lambda>x. \<not> P x) pre \<Longrightarrow> P m \<Longrightarrow> find P (pre @ m # post) = Some m"
  by (induction pre) simp_all

lemma tlsConfigForMirror_fst:
  "fst (tlsConfigForMirror s m w) = map_sum id (\<lambda>c. length (tls_heap w)) (mirror_policy s m)"
  by (simp add: tlsConfigForMirror_policy split: sum.splits)

text \<open>
  \<open>mirrors_resolve\<close> in terms of \<open>tlsConfigForMirror\<close>: no configured mirror makes it
  return an error, in whatever state it is called.
\<close>

lemma mirrors_resolve_iff:
  "mirrors_resolve s \<longleftrightarrow>
     list_all (\<lambda>m. \<not> isl (fst (tlsConfigForMirror s m w))) (Mirrors s)"
proof -
  have "isl (fst (tlsConfigForMirror s m w)) = isl (mirror_policy s m)" for m
    by (cases "mirror_policy s m") (simp_all add: tlsConfigForMirror_fst)
  then show ?thesis by (simp add: mirrors_resolve_def)
qed

subsection \<open>Results do not depend on the state\<close>

lemma view_official_candidates:
  "tls_heap w' ! p = d \<Longrightarrow>
   map (candidate_view w') (official_candidates s p) =
   map (candidate_view \<lparr>tls_heap = [d], log_openable = False, log_lines = []\<rparr>)
     (official_candidates s 0)"
  by (simp add: official_candidates_def candidate_view_def)

lemma view_host_candidates:
  "tls_heap w' ! q = c \<Longrightarrow>
   map (candidate_view w') (host_candidates s host q b) =
   map (candidate_view \<lparr>tls_heap = [c], log_openable = False, log_lines = []\<rparr>)
     (host_candidates s host 0 b)"
  by (simp add: host_candidates_def candidate_view_def)

lemma result_view_official:
  assumes "mirrors_resolve s" and "HasPrefix repoName (DefaultNamespace @ ''/'')"
  shows "result_view (lookupEndpoints s repoName w) =
     Inr (map (\<lambda>m. (True, m, APIVersion2, False, True, projr (mirror_policy s m), [], []))
            (Mirrors s) @
          map (candidate_view \<lparr>tls_heap = [ServerDefault s], log_openable = False,
                 log_lines = []\<rparr>) (official_candidates s 0))"
proof -
  let ?w' = "snd (lookupEndpoints s repoName w)"
  have heap: "tls_heap ?w' = tls_heap w @ ServerDefault s # mirror_policies s (Mirrors s) @ []"
    using lookupEndpoints_official_heap [OF assms, of w] by simp
  have d: "tls_heap ?w' ! length (tls_heap w) = ServerDefault s"
    unfolding heap by (simp add: nth_append)
  show ?thesis
    unfolding result_view_def lookupEndpoints_official_fst [OF assms]
    by (simp add: view_mirror_candidates [OF heap] view_official_candidates [OF d])
qed

lemma result_view_host:
  assumes "mirrors_resolve s" and "\<not> HasPrefix repoName (DefaultNamespace @ ''/'')"
    and "0 < IndexRune repoName CHR ''/''"
    and "newTLSConfig s (repo_hostname repoName) (isSecureIndex s (repo_hostname repoName)) =
           Inr c"
  shows "result_view (lookupEndpoints s repoName w) =
     Inr (map (\<lambda>m. (True, m, APIVersion2, False, True, projr (mirror_policy s m), [], []))
            (Mirrors s) @
          map (candidate_view \<lparr>tls_heap = [c], log_openable = False, log_lines = []\<rparr>)
            (host_candidates s (repo_hostname repoName) 0 (InsecureSkipVerify c)))"
proof -
  let ?w' = "snd (lookupEndpoints s repoName w)"
  have heap: "tls_heap ?w' = tls_heap w @ ServerDefault s # mirror_policies s (Mirrors s) @ [c]"
    by (rule lookupEndpoints_host_heap [OF assms])
  have d: "tls_heap ?w' ! Suc (length (tls_heap w) + length (Mirrors s)) = c"
    unfolding heap by (simp add: nth_append nth_Cons')
  show ?thesis
    unfolding result_view_def lookupEndpoints_host_fst [OF assms]
    by (simp add: view_mirror_candidates [OF heap] view_host_candidates [OF d])
qed

lemma result_view_lookupEndpoints:
  "result_view (lookupEndpoints s repoName w1) = result_view (lookupEndpoints s repoName w2)"
proof (cases "mirrors_resolve s")
  case False
  from lookupEndpoints_unresolved [OF False] obtain e where
    "\<forall>repoName w. fst (lookupEndpoints s repoName w) = Inl e" by blast
  then show ?thesis by (simp add: result_view_def)
next
  case res: True
  show ?thesis
  proof (cases "HasPrefix repoName (DefaultNamespace @ ''/'')")
    case True
    show ?thesis by (simp only: result_view_official [OF res True])
  next
    case False
    show ?thesis
    proof (cases "0 < IndexRune repoName CHR ''/''")
      case neg: False
      then have "IndexRune repoName CHR ''/'' \<le> 0" by simp
      from lookupEndpoints_invalid [OF res False this] show ?thesis
        by (simp add: result_view_def)
    next
      case pos: True
      show ?thesis
      proof (cases "newTLSConfig s (repo_hostname repoName)
                      (isSecureIndex s (repo_hostname repoName))")
        case (Inl msg)
        from lookupEndpoints_tls_fails [OF res False pos Inl] show ?thesis
          by (simp add: result_view_def)
      next
        case (Inr c)
        show ?thesis by (simp only: result_view_host [OF res False pos Inr])
      qed
    qed
  qed
qed

lemma result_view_push:
  "result_view (LookupPushEndpoints s repoName w) =
   map_sum id (filter (\<lambda>v. \<not> fst v)) (result_view (lookupEndpoints s repoName w))"
proof (cases "lookupEndpoints s repoName w")
  case (Pair r w')
  show ?thesis
  proof (cases r)
    case (Inl e)
    with Pair show ?thesis by (simp add: result_view_def LookupPushEndpoints_def)
  next
    case (Inr out)
    have "map (candidate_view w') (filter (\<lambda>e. \<not> Mirror e) out) =
          filter (\<lambda>v. \<not> fst v) (map (candidate_view w') out)"
      by (induction out) (simp_all add: candidate_view_def)
    with Pair Inr show ?thesis
      by (simp add: result_view_def LookupPushEndpoints_def push_loop_filter)
  qed
qed

section \<open>The claims\<close>

text \<open>
  Claim C1, as stated, fails: for a secure host the candidates after the mirror candidates
  are the two HTTPS ones, but a mirror candidate carries the configured mirror address as
  it is, and a mirror configured over plain HTTP puts an \<^verbatim>\<open>http://\<close> candidate into the
  output. Here the host \<^verbatim>\<open>example.com\<close> is secure and the first candidate returned has the
  address \<^verbatim>\<open>http://mirror.example\<close>.
\<close>

theorem secure_host_http_mirror_counterexample:
  "\<not> HasPrefix ''example.com/app'' (DefaultNamespace @ ''/'') \<and>
   newTLSConfig example_env ''example.com'' (isSecureIndex example_env ''example.com'') =
     Inr \<lparr>InsecureSkipVerify = False, RootCAs = [], Certificates = []\<rparr> \<and>
   fst (LookupPullEndpoints example_env ''example.com/app'' example_world) =
     Inr [\<lparr>Mirror = True, URL = ''http://mirror.example'', Version = APIVersion2,
            Official = False, TrimHostname = True, TLSConfig = 1, VersionHeader = [],
            Versions = []\<rparr>,
          \<lparr>Mirror = False, URL = ''https://example.com'', Version = APIVersion2,
            Official = False, TrimHostname = True, TLSConfig = 2,
            VersionHeader = ''Docker-Distribution-Api-Version'',
            Versions = [\<lparr>auth_Type = ''registry'', auth_Version = ''2.0''\<rparr>]\<rparr>,
          \<lparr>Mirror = False, URL = ''https://example.com'', Version = APIVersion1,
            Official = False, TrimHostname = True, TLSConfig = 2, VersionHeader = [],
            Versions = []\<rparr>] \<and>
   HasPrefix ''http://mirror.example'' ''http://''"
  by (simp add: LookupPullEndpoints_def lookupEndpoints_def alloc_def Printf_def
      tlsConfigForMirror_def Service_TLSConfig_def host_endpoints_def example_env_def
      example_world_def HasPrefix_def DefaultNamespace_def Let_def)

text \<open>
  Claim C1, amended. For a non-official repository name \<open>host/rest\<close> whose resolved
  policy verifies certificates, \<open>LookupPullEndpoints\<close> returns the mirror candidates
  (the mirror loop having produced them: every mirror resolves) followed by exactly two
  candidates: \<^verbatim>\<open>https://host\<close> tagged v2 (trimming the hostname, with the
  version header name and the single advertised version \<^verbatim>\<open>registry\<close> \<^verbatim>\<open>2.0\<close>), then
  \<^verbatim>\<open>https://host\<close> tagged v1, both pointing to the policy resolved for the host. No
  candidate after the mirror candidates has an \<^verbatim>\<open>http://\<close> address.
\<close>

theorem secure_host_candidates:
  assumes "repoName = host @ CHR ''/'' # rest" and "host \<noteq> []" and "CHR ''/'' \<notin> set host"
    and "\<not> HasPrefix repoName (DefaultNamespace @ ''/'')"
    and "mirrors_resolve s"
    and "newTLSConfig s host (isSecureIndex s host) = Inr c" and "\<not> InsecureSkipVerify c"
  shows "\<exists>out. fst (LookupPullEndpoints s repoName w) = Inr out \<and>
           take (length (Mirrors s)) out =
             mirror_candidates (Suc (length (tls_heap w))) (Mirrors s) \<and>
           drop (length (Mirrors s)) out =
             [\<lparr>Mirror = False, URL = ''https://'' @ host, Version = APIVersion2,
               Official = False, TrimHostname = True,
               TLSConfig = Suc (length (tls_heap w) + length (Mirrors s)),
               VersionHeader = DefaultRegistryVersionHeader s,
               Versions = [\<lparr>auth_Type = ''registry'', auth_Version = ''2.0''\<rparr>]\<rparr>,
              \<lparr>Mirror = False, URL = ''https://'' @ host, Version = APIVersion1,
               Official = False, TrimHostname = True,
               TLSConfig = Suc (length (tls_heap w) + length (Mirrors s)),
               VersionHeader = [], Versions = []\<rparr>] \<and>
           list_all (\<lambda>e. \<not> HasPrefix (URL e) ''http://'') (drop (length (Mirrors s)) out) \<and>
           tls_heap (snd (LookupPullEndpoints s repoName w)) !
             Suc (length (tls_heap w) + length (Mirrors s)) = c"
proof -
  have pos: "0 < IndexRune repoName CHR ''/''"
    using assms(1,2,3) by (simp add: IndexRune_first)
  have hn: "repo_hostname repoName = host"
    using assms(1,3) by (simp add: repo_hostname_first)
  have tls: "newTLSConfig s (repo_hostname repoName) (isSecureIndex s (repo_hostname repoName)) =
      Inr c" using assms(6) hn by simp
  have "(tls_heap w @ ServerDefault s # mirror_policies s (Mirrors s) @ [c]) !
          Suc (length (tls_heap w) + length (Mirrors s)) = c"
    by (simp add: nth_append nth_Cons')
  then show ?thesis
    using lookupEndpoints_host_fst [OF assms(5,4) pos tls, of w]
      lookupEndpoints_host_heap [OF assms(5,4) pos tls, of w] assms(7) hn
    by (simp add: LookupPullEndpoints_def host_candidates_def HasPrefix_def)
qed

theorem secure_host_candidates_witness:
  "''registry.example/team/app'' = ''registry.example'' @ CHR ''/'' # ''team/app'' \<and>
   ''registry.example'' \<noteq> [] \<and> CHR ''/'' \<notin> set ''registry.example'' \<and>
   \<not> HasPrefix ''registry.example/team/app'' (DefaultNamespace @ ''/'') \<and>
   mirrors_resolve example_env \<and>
   newTLSConfig example_env ''registry.example'' (isSecureIndex example_env ''registry.example'') =
     Inr \<lparr>InsecureSkipVerify = False, RootCAs = [], Certificates = []\<rparr> \<and>
   \<not> InsecureSkipVerify \<lparr>InsecureSkipVerify = False, RootCAs = [], Certificates = []\<rparr> \<and>
   map URL (drop 1 (projr (fst (LookupPullEndpoints example_env ''registry.example/team/app''
       example_world)))) = [''https://registry.example'', ''https://registry.example''] \<and>
   map Version (drop 1 (projr (fst (LookupPullEndpoints example_env
       ''registry.example/team/app'' example_world)))) = [APIVersion2, APIVersion1]"
proof -
  have h1: "''registry.example/team/app'' = ''registry.example'' @ CHR ''/'' # ''team/app''"
    by simp
  have h2: "''registry.example'' \<noteq> []" by simp
  have h3: "CHR ''/'' \<notin> set ''registry.example''" by simp
  have h4: "\<not> HasPrefix ''registry.example/team/app'' (DefaultNamespace @ ''/'')"
    by (simp add: HasPrefix_def DefaultNamespace_def)
  have h5: "mirrors_resolve example_env"
    by (simp add: mirrors_resolve_def mirror_policy_def example_env_def HasPrefix_def)
  have h6: "newTLSConfig example_env ''registry.example''
      (isSecureIndex example_env ''registry.example'') =
     Inr \<lparr>InsecureSkipVerify = False, RootCAs = [], Certificates = []\<rparr>"
    by (simp add: example_env_def)
  have h7: "\<not> InsecureSkipVerify \<lparr>InsecureSkipVerify = False, RootCAs = [], Certificates = []\<rparr>"
    by simp
  have len: "length (Mirrors example_env) = 1" by (simp add: example_env_def)
  from secure_host_candidates [OF h1 h2 h3 h4 h5 h6 h7, of example_world]
  obtain out where
    o: "fst (LookupPullEndpoints example_env ''registry.example/team/app'' example_world) =
          Inr out"
    and d: "drop (length (Mirrors example_env)) out =
             [\<lparr>Mirror = False, URL = ''https://'' @ ''registry.example'', Version = APIVersion2,
               Official = False, TrimHostname = True,
               TLSConfig = Suc (length (tls_heap example_world) + length (Mirrors example_env)),
               VersionHeader = DefaultRegistryVersionHeader example_env,
               Versions = [\<lparr>auth_Type = ''registry'', auth_Version = ''2.0''\<rparr>]\<rparr>,
              \<lparr>Mirror = False, URL = ''https://'' @ ''registry.example'', Version = APIVersion1,
               Official = False, TrimHostname = True,
               TLSConfig = Suc (length (tls_heap example_world) + length (Mirrors example_env)),
               VersionHeader = [], Versions = []\<rparr>]"
    by blast
  from o d len h4 h5 h6 show ?thesis by simp
qed

text \<open>
  Claim C2, as stated, fails: the mirrors are resolved before the host of the name, so with
  a mirror whose address does not parse the call returns that mirror's parse error and no
  candidate, also for a host whose resolved policy has \<^verbatim>\<open>InsecureSkipVerify\<close> set.
\<close>

theorem insecure_host_broken_mirror_counterexample:
  "\<not> HasPrefix ''insecure.example/app'' (DefaultNamespace @ ''/'') \<and>
   newTLSConfig broken_mirror_env ''insecure.example''
       (isSecureIndex broken_mirror_env ''insecure.example'') =
     Inr \<lparr>InsecureSkipVerify = True, RootCAs = [], Certificates = []\<rparr> \<and>
   fst (LookupPullEndpoints broken_mirror_env ''insecure.example/app'' example_world) =
     Inl (ParseError ''missing protocol scheme'')"
  by (simp add: LookupPullEndpoints_def lookupEndpoints_def alloc_def Printf_def
      tlsConfigForMirror_def Service_TLSConfig_def broken_mirror_env_def example_env_def
      example_world_def HasPrefix_def DefaultNamespace_def Let_def)

text \<open>
  Claim C2, amended. For a non-official repository name \<open>host/rest\<close> whose resolved
  policy has \<^verbatim>\<open>InsecureSkipVerify\<close> set, whenever trust resolution succeeds for every
  configured mirror, \<open>LookupPullEndpoints\<close> returns, after the mirror candidates,
  exactly four candidates
  in the order HTTPS v2, HTTPS v1, HTTP v2, HTTP v1. All four hold
  the same address: the one policy object allocated for the host in this call, the last
  object of the store, whose \<^verbatim>\<open>InsecureSkipVerify\<close> is true. No second policy is resolved
  for the HTTP candidates.
\<close>

theorem insecure_host_candidates:
  assumes "repoName = host @ CHR ''/'' # rest" and "host \<noteq> []" and "CHR ''/'' \<notin> set host"
    and "\<not> HasPrefix repoName (DefaultNamespace @ ''/'')"
    and "mirrors_resolve s"
    and "newTLSConfig s host (isSecureIndex s host) = Inr c" and "InsecureSkipVerify c"
  shows "fst (LookupPullEndpoints s repoName w) =
           Inr (mirror_candidates (Suc (length (tls_heap w))) (Mirrors s) @
             [\<lparr>Mirror = False, URL = ''https://'' @ host, Version = APIVersion2,
               Official = False, TrimHostname = True,
               TLSConfig = Suc (length (tls_heap w) + length (Mirrors s)),
               VersionHeader = DefaultRegistryVersionHeader s,
               Versions = [\<lparr>auth_Type = ''registry'', auth_Version = ''2.0''\<rparr>]\<rparr>,
              \<lparr>Mirror = False, URL = ''https://'' @ host, Version = APIVersion1,
               Official = False, TrimHostname = True,
               TLSConfig = Suc (length (tls_heap w) + length (Mirrors s)),
               VersionHeader = [], Versions = []\<rparr>,
              \<lparr>Mirror = False, URL = ''http://'' @ host, Version = APIVersion2,
               Official = False, TrimHostname = True,
               TLSConfig = Suc (length (tls_heap w) + length (Mirrors s)),
               VersionHeader = DefaultRegistryVersionHeader s,
               Versions = [\<lparr>auth_Type = ''registry'', auth_Version = ''2.0''\<rparr>]\<rparr>,
              \<lparr>Mirror = False, URL = ''http://'' @ host, Version = APIVersion1,
               Official = False, TrimHostname = True,
               TLSConfig = Suc (length (tls_heap w) + length (Mirrors s)),
               VersionHeader = [], Versions = []\<rparr>])
         \<and> tls_heap (snd (LookupPullEndpoints s repoName w)) =
             tls_heap w @ ServerDefault s # mirror_policies s (Mirrors s) @ [c]
         \<and> tls_heap (snd (LookupPullEndpoints s repoName w)) !
               Suc (length (tls_heap w) + length (Mirrors s)) = c
         \<and> InsecureSkipVerify (tls_heap (snd (LookupPullEndpoints s repoName w)) !
               Suc (length (tls_heap w) + length (Mirrors s)))"
proof -
  have pos: "0 < IndexRune repoName CHR ''/''"
    using assms(1,2,3) by (simp add: IndexRune_first)
  have hn: "repo_hostname repoName = host"
    using assms(1,3) by (simp add: repo_hostname_first)
  have tls: "newTLSConfig s (repo_hostname repoName) (isSecureIndex s (repo_hostname repoName)) =
      Inr c" using assms(6) hn by simp
  have "(tls_heap w @ ServerDefault s # mirror_policies s (Mirrors s) @ [c]) !
          Suc (length (tls_heap w) + length (Mirrors s)) = c"
    by (simp add: nth_append nth_Cons')
  then show ?thesis
    using lookupEndpoints_host_fst [OF assms(5,4) pos tls, of w]
      lookupEndpoints_host_heap [OF assms(5,4) pos tls, of w] assms(7) hn
    by (simp add: LookupPullEndpoints_def host_candidates_def)
qed

theorem insecure_host_candidates_witness:
  "''insecure.example/app'' = ''insecure.example'' @ CHR ''/'' # ''app'' \<and>
   ''insecure.example'' \<noteq> [] \<and> CHR ''/'' \<notin> set ''insecure.example'' \<and>
   \<not> HasPrefix ''insecure.example/app'' (DefaultNamespace @ ''/'') \<and>
   mirrors_resolve example_env \<and>
   newTLSConfig example_env ''insecure.example'' (isSecureIndex example_env ''insecure.example'') =
     Inr \<lparr>InsecureSkipVerify = True, RootCAs = [], Certificates = []\<rparr> \<and>
   InsecureSkipVerify \<lparr>InsecureSkipVerify = True, RootCAs = [], Certificates = []\<rparr> \<and>
   map URL (projr (fst (LookupPullEndpoints example_env ''insecure.example/app''
       example_world))) =
     [''http://mirror.example'', ''https://insecure.example'', ''https://insecure.example'',
      ''http://insecure.example'', ''http://insecure.example''] \<and>
   map TLSConfig (projr (fst (LookupPullEndpoints example_env ''insecure.example/app''
       example_world))) = [1, 2, 2, 2, 2] \<and>
   tls_heap (snd (LookupPullEndpoints example_env ''insecure.example/app'' example_world)) ! 2 =
     \<lparr>InsecureSkipVerify = True, RootCAs = [], Certificates = []\<rparr>"
proof -
  have h1: "''insecure.example/app'' = ''insecure.example'' @ CHR ''/'' # ''app''" by simp
  have h2: "''insecure.example'' \<noteq> []" by simp
  have h3: "CHR ''/'' \<notin> set ''insecure.example''" by simp
  have h4: "\<not> HasPrefix ''insecure.example/app'' (DefaultNamespace @ ''/'')"
    by (simp add: HasPrefix_def DefaultNamespace_def)
  have h5: "mirrors_resolve example_env"
    by (simp add: mirrors_resolve_def mirror_policy_def example_env_def HasPrefix_def)
  have h6: "newTLSConfig example_env ''insecure.example''
      (isSecureIndex example_env ''insecure.example'') =
     Inr \<lparr>InsecureSkipVerify = True, RootCAs = [], Certificates = []\<rparr>"
    by (simp add: example_env_def)
  have h7: "InsecureSkipVerify \<lparr>InsecureSkipVerify = True, RootCAs = [], Certificates = []\<rparr>"
    by simp
  have len: "length (Mirrors example_env) = 1" "length (tls_heap example_world) = 0"
    "Mirrors example_env = [''http://mirror.example'']"
    by (simp_all add: example_env_def example_world_def)
  have q: "Suc (length (tls_heap example_world) + length (Mirrors example_env)) = 2"
    by (simp add: example_env_def example_world_def)
  note t = insecure_host_candidates [OF h1 h2 h3 h4 h5 h6 h7, of example_world, unfolded q]
  from t have a: "map URL (projr (fst (LookupPullEndpoints example_env ''insecure.example/app''
       example_world))) =
     [''http://mirror.example'', ''https://insecure.example'', ''https://insecure.example'',
      ''http://insecure.example'', ''http://insecure.example'']"
    and b: "map TLSConfig (projr (fst (LookupPullEndpoints example_env ''insecure.example/app''
       example_world))) = [1, 2, 2, 2, 2]"
    by (simp_all add: len mirror_candidates_def enumerate_eq_zip)
  from t have c: "tls_heap (snd (LookupPullEndpoints example_env ''insecure.example/app''
      example_world)) ! 2 = \<lparr>InsecureSkipVerify = True, RootCAs = [], Certificates = []\<rparr>"
    by blast
  from a b c h4 h5 h6 show ?thesis by simp
qed

text \<open>
  Claim C3. Whenever \<open>LookupPullEndpoints\<close> succeeds, with \<open>n\<close> configured mirrors,
  its output begins with \<open>n\<close> candidates, the \<open>i\<close>-th having the address of the
  \<open>i\<close>-th mirror, version v2, the mirror flag and the hostname trimming set, and pointing
  to the policy that \<^verbatim>\<open>newTLSConfig\<close> gave for the host of the parsed mirror address and
  its classification. No candidate after these \<open>n\<close> has the mirror flag.
\<close>

theorem mirror_candidates_first:
  assumes "fst (LookupPullEndpoints s repoName w) = Inr out"
  shows "length (Mirrors s) \<le> length out \<and>
     (\<forall>i<length (Mirrors s).
        out ! i = \<lparr>Mirror = True, URL = Mirrors s ! i, Version = APIVersion2, Official = False,
                   TrimHostname = True, TLSConfig = Suc (length (tls_heap w)) + i,
                   VersionHeader = [], Versions = []\<rparr> \<and>
        (\<exists>mirrorURL.
           url_Parse s (Mirrors s ! i) = Inr mirrorURL \<and>
           newTLSConfig s (Host mirrorURL) (isSecureIndex s (Host mirrorURL)) =
             Inr (tls_heap (snd (LookupPullEndpoints s repoName w)) ! TLSConfig (out ! i)))) \<and>
     list_all (\<lambda>e. \<not> Mirror e) (drop (length (Mirrors s)) out)"
proof -
  let ?h = "tls_heap w" and ?ms = "Mirrors s"
  from assms have ok: "fst (lookupEndpoints s repoName w) = Inr out"
    by (simp add: LookupPullEndpoints_def)
  have res: "mirrors_resolve s" using ok by (rule lookupEndpoints_success_resolves)
  from lookupEndpoints_shape [OF ok] obtain tail extra where
    out: "out = mirror_candidates (Suc (length ?h)) ?ms @ tail"
    and tail: "list_all (\<lambda>e. \<not> Mirror e) tail"
    and heap: "tls_heap (snd (lookupEndpoints s repoName w)) =
                 ?h @ ServerDefault s # mirror_policies s ?ms @ extra"
    by blast
  have len: "length ?ms \<le> length out" using out by simp
  have rest: "list_all (\<lambda>e. \<not> Mirror e) (drop (length ?ms) out)" using out tail by simp
  have each: "out ! i = \<lparr>Mirror = True, URL = ?ms ! i, Version = APIVersion2, Official = False,
                   TrimHostname = True, TLSConfig = Suc (length ?h) + i,
                   VersionHeader = [], Versions = []\<rparr> \<and>
        (\<exists>mirrorURL.
           url_Parse s (?ms ! i) = Inr mirrorURL \<and>
           newTLSConfig s (Host mirrorURL) (isSecureIndex s (Host mirrorURL)) =
             Inr (tls_heap (snd (LookupPullEndpoints s repoName w)) ! TLSConfig (out ! i)))"
    if i: "i < length ?ms" for i
  proof -
    have e: "out ! i = \<lparr>Mirror = True, URL = ?ms ! i, Version = APIVersion2, Official = False,
                   TrimHostname = True, TLSConfig = Suc (length ?h) + i,
                   VersionHeader = [], Versions = []\<rparr>"
      using i out by (simp add: nth_append nth_mirror_candidates)
    have hp: "tls_heap (snd (LookupPullEndpoints s repoName w)) ! (Suc (length ?h) + i) =
              projr (mirror_policy s (?ms ! i))"
      using i by (simp add: LookupPullEndpoints_def heap nth_append mirror_policies_def)
    from res i have "\<not> isl (mirror_policy s (?ms ! i))"
      by (simp add: mirrors_resolve_def list_all_length)
    then obtain c where c: "mirror_policy s (?ms ! i) = Inr c"
      by (cases "mirror_policy s (?ms ! i)") simp_all
    then have "\<exists>mirrorURL. url_Parse s (?ms ! i) = Inr mirrorURL \<and>
           newTLSConfig s (Host mirrorURL) (isSecureIndex s (Host mirrorURL)) = Inr c"
      by (simp add: mirror_policy_def split: sum.splits)
    with e hp c show ?thesis by simp
  qed
  from len each rest show ?thesis by blast
qed

theorem mirror_candidates_first_witness:
  "fst (LookupPullEndpoints example_env ''example.com/app'' example_world) =
     Inr [\<lparr>Mirror = True, URL = ''http://mirror.example'', Version = APIVersion2,
            Official = False, TrimHostname = True, TLSConfig = 1, VersionHeader = [],
            Versions = []\<rparr>,
          \<lparr>Mirror = False, URL = ''https://example.com'', Version = APIVersion2,
            Official = False, TrimHostname = True, TLSConfig = 2,
            VersionHeader = ''Docker-Distribution-Api-Version'',
            Versions = [\<lparr>auth_Type = ''registry'', auth_Version = ''2.0''\<rparr>]\<rparr>,
          \<lparr>Mirror = False, URL = ''https://example.com'', Version = APIVersion1,
            Official = False, TrimHostname = True, TLSConfig = 2, VersionHeader = [],
            Versions = []\<rparr>] \<and>
   length (Mirrors example_env) = 1 \<and>
   url_Parse example_env (Mirrors example_env ! 0) =
     Inr \<lparr>Scheme = ''http'', Host = ''mirror.example'', Path = []\<rparr> \<and>
   newTLSConfig example_env ''mirror.example'' (isSecureIndex example_env ''mirror.example'') =
     Inr (tls_heap (snd (LookupPullEndpoints example_env ''example.com/app'' example_world)) ! 1)"
proof -
  let ?out = "[\<lparr>Mirror = True, URL = ''http://mirror.example'', Version = APIVersion2,
            Official = False, TrimHostname = True, TLSConfig = 1, VersionHeader = [],
            Versions = []\<rparr>,
          \<lparr>Mirror = False, URL = ''https://example.com'', Version = APIVersion2,
            Official = False, TrimHostname = True, TLSConfig = 2,
            VersionHeader = ''Docker-Distribution-Api-Version'',
            Versions = [\<lparr>auth_Type = ''registry'', auth_Version = ''2.0''\<rparr>]\<rparr>,
          \<lparr>Mirror = False, URL = ''https://example.com'', Version = APIVersion1,
            Official = False, TrimHostname = True, TLSConfig = 2, VersionHeader = [],
            Versions = []\<rparr>]"
  have h: "fst (LookupPullEndpoints example_env ''example.com/app'' example_world) = Inr ?out"
    by (simp add: LookupPullEndpoints_def lookupEndpoints_def alloc_def Printf_def
      tlsConfigForMirror_def Service_TLSConfig_def host_endpoints_def example_env_def
      example_world_def HasPrefix_def DefaultNamespace_def Let_def)
  have len: "length (Mirrors example_env) = 1" by (simp add: example_env_def)
  have p: "url_Parse example_env (Mirrors example_env ! 0) =
     Inr \<lparr>Scheme = ''http'', Host = ''mirror.example'', Path = []\<rparr>"
    by (simp add: example_env_def HasPrefix_def)
  from mirror_candidates_first [OF h] len have
    "\<exists>mirrorURL.
           url_Parse example_env (Mirrors example_env ! 0) = Inr mirrorURL \<and>
           newTLSConfig example_env (Host mirrorURL) (isSecureIndex example_env (Host mirrorURL)) =
             Inr (tls_heap (snd (LookupPullEndpoints example_env ''example.com/app''
                    example_world)) ! TLSConfig (?out ! 0))"
    by simp
  with p have "newTLSConfig example_env ''mirror.example''
      (isSecureIndex example_env ''mirror.example'') =
     Inr (tls_heap (snd (LookupPullEndpoints example_env ''example.com/app'' example_world)) ! 1)"
    by simp
  with h len p show ?thesis by simp
qed

text \<open>
  Claim C4, as stated, fails: the mirror loop comes before the prefix test, so with a
  mirror whose address does not parse a name under \<^verbatim>\<open>library/\<close> gets that mirror's parse
  error and no canonical endpoint.
\<close>

theorem official_name_no_candidates_counterexample:
  "HasPrefix ''library/busybox'' (DefaultNamespace @ ''/'') \<and>
   Mirrors broken_mirror_env = [''http://mirror.example'', '':mirror''] \<and>
   fst (LookupPullEndpoints broken_mirror_env ''library/busybox'' example_world) =
     Inl (ParseError ''missing protocol scheme'')"
  by (simp add: LookupPullEndpoints_def lookupEndpoints_def alloc_def Printf_def
      tlsConfigForMirror_def Service_TLSConfig_def broken_mirror_env_def example_env_def
      example_world_def HasPrefix_def DefaultNamespace_def Let_def)

text \<open>
  Claim C4, amended. For a repository name that begins with the default namespace
  \<^verbatim>\<open>library\<close> followed by \<^verbatim>\<open>/\<close>, whenever trust resolution succeeds for every
  configured mirror, \<open>LookupPullEndpoints\<close> returns, after the mirror candidates,
  exactly the canonical v2
  registry endpoint, followed by the canonical v1 registry endpoint
  if and only if \<^verbatim>\<open>runtime.GOOS\<close> is \<^verbatim>\<open>linux\<close>; both are official, trim the hostname and
  point to the policy object that holds \<^verbatim>\<open>tlsconfig.ServerDefault\<close>. Nothing derived from a
  host of the name is appended, and no policy is resolved for one: the objects allocated
  are the default policy and the mirrors' policies only.
\<close>

theorem official_name_candidates:
  assumes "HasPrefix repoName (DefaultNamespace @ ''/'')" and "mirrors_resolve s"
  shows "fst (LookupPullEndpoints s repoName w) =
           Inr (mirror_candidates (Suc (length (tls_heap w))) (Mirrors s) @
             \<lparr>Mirror = False, URL = DefaultV2Registry s, Version = APIVersion2, Official = True,
               TrimHostname = True, TLSConfig = length (tls_heap w), VersionHeader = [],
               Versions = []\<rparr> #
             (if GOOS s = ''linux''
              then [\<lparr>Mirror = False, URL = DefaultV1Registry s, Version = APIVersion1,
                      Official = True, TrimHostname = True, TLSConfig = length (tls_heap w),
                      VersionHeader = [], Versions = []\<rparr>]
              else []))
         \<and> tls_heap (snd (LookupPullEndpoints s repoName w)) ! length (tls_heap w) =
             ServerDefault s
         \<and> tls_heap (snd (LookupPullEndpoints s repoName w)) =
             tls_heap w @ ServerDefault s # mirror_policies s (Mirrors s)"
  using assms
  by (simp add: LookupPullEndpoints_def lookupEndpoints_official_fst
      lookupEndpoints_official_heap official_candidates_def)

theorem official_name_candidates_witness:
  "HasPrefix ''library/ubuntu'' (DefaultNamespace @ ''/'') \<and> mirrors_resolve example_env \<and>
   fst (LookupPullEndpoints example_env ''library/ubuntu'' example_world) =
     Inr [\<lparr>Mirror = True, URL = ''http://mirror.example'', Version = APIVersion2,
            Official = False, TrimHostname = True, TLSConfig = 1, VersionHeader = [],
            Versions = []\<rparr>,
          \<lparr>Mirror = False, URL = ''https://registry-1.docker.io'', Version = APIVersion2,
            Official = True, TrimHostname = True, TLSConfig = 0, VersionHeader = [],
            Versions = []\<rparr>,
          \<lparr>Mirror = False, URL = ''https://index.docker.io'', Version = APIVersion1,
            Official = True, TrimHostname = True, TLSConfig = 0, VersionHeader = [],
            Versions = []\<rparr>] \<and>
   tls_heap (snd (LookupPullEndpoints example_env ''library/ubuntu'' example_world)) ! 0 =
     ServerDefault example_env"
proof -
  have h1: "HasPrefix ''library/ubuntu'' (DefaultNamespace @ ''/'')"
    by (simp add: HasPrefix_def DefaultNamespace_def)
  have h2: "mirrors_resolve example_env"
    by (simp add: mirrors_resolve_def mirror_policy_def example_env_def HasPrefix_def)
  show ?thesis
    using h1 h2 official_name_candidates [OF h1 h2, of example_world]
    by (simp add: example_env_def example_world_def mirror_candidates_def enumerate_eq_zip)
qed

text \<open>
  Claim C5. From the same state, \<open>LookupPushEndpoints\<close> returns the list of
  \<open>LookupPullEndpoints\<close> without the candidates that have the mirror flag, the others in
  their order, or the same error, and leaves the same state. From any two states, the push
  result read through its pointers is the pull result read through its pointers, without
  the mirror candidates.
\<close>

theorem push_is_pull_without_mirrors:
  "fst (LookupPushEndpoints s repoName w) =
     map_sum id (filter (\<lambda>e. \<not> Mirror e)) (fst (LookupPullEndpoints s repoName w)) \<and>
   snd (LookupPushEndpoints s repoName w) = snd (LookupPullEndpoints s repoName w) \<and>
   result_view (LookupPushEndpoints s repoName w') =
     map_sum id (filter (\<lambda>v. \<not> fst v)) (result_view (LookupPullEndpoints s repoName w))"
proof -
  have a: "fst (LookupPushEndpoints s repoName w) =
     map_sum id (filter (\<lambda>e. \<not> Mirror e)) (fst (LookupPullEndpoints s repoName w)) \<and>
   snd (LookupPushEndpoints s repoName w) = snd (LookupPullEndpoints s repoName w)"
  proof (cases "lookupEndpoints s repoName w")
    case (Pair r w1)
    then show ?thesis
      by (cases r)
         (simp_all add: LookupPushEndpoints_def LookupPullEndpoints_def push_loop_filter)
  qed
  have "result_view (lookupEndpoints s repoName w') = result_view (lookupEndpoints s repoName w)"
    by (rule result_view_lookupEndpoints)
  then have "result_view (LookupPushEndpoints s repoName w') =
     map_sum id (filter (\<lambda>v. \<not> fst v)) (result_view (LookupPullEndpoints s repoName w))"
    by (simp only: result_view_push LookupPullEndpoints_def)
  with a show ?thesis by (intro conjI) simp_all
qed

text \<open>
  Claim C6. If \<open>tlsConfigForMirror\<close> fails for a configured mirror, then
  \<open>LookupPullEndpoints\<close> and \<open>LookupPushEndpoints\<close> both return an error and no list:
  the error of the first configured mirror for which it fails.
\<close>

theorem mirror_failure_aborts:
  assumes "m \<in> set (Mirrors s)" and "fst (tlsConfigForMirror s m w0) = Inl e"
  shows "\<exists>m1 e1.
           find (\<lambda>m. isl (fst (tlsConfigForMirror s m w0))) (Mirrors s) = Some m1 \<and>
           fst (tlsConfigForMirror s m1 w0) = Inl e1 \<and>
           fst (LookupPullEndpoints s repoName w) = Inl e1 \<and>
           fst (LookupPushEndpoints s repoName w) = Inl e1"
proof -
  have same: "isl (fst (tlsConfigForMirror s x w0)) = isl (mirror_policy s x)" for x
    by (cases "mirror_policy s x") (simp_all add: tlsConfigForMirror_fst)
  from assms(2) have "isl (mirror_policy s m)" using same [of m] by simp
  with assms(1) have "\<not> mirrors_resolve s" by (auto simp: mirrors_resolve_def list_all_iff)
  from first_failing_mirror [OF this] obtain pre m1 post e1 where
    d: "Mirrors s = pre @ m1 # post" "list_all (\<lambda>m. \<not> isl (mirror_policy s m)) pre"
       "mirror_policy s m1 = Inl e1" by blast
  from d(2) have pre: "list_all (\<lambda>m. \<not> isl (fst (tlsConfigForMirror s m w0))) pre"
    by (simp add: same)
  from d(3) have m1: "fst (tlsConfigForMirror s m1 w0) = Inl e1"
    by (simp add: tlsConfigForMirror_fst)
  then have "isl (fst (tlsConfigForMirror s m1 w0))" by simp
  with pre have f: "find (\<lambda>m. isl (fst (tlsConfigForMirror s m w0))) (Mirrors s) = Some m1"
    unfolding d(1) by (rule find_first)
  have pull: "fst (lookupEndpoints s repoName w) = Inl e1"
    by (rule lookupEndpoints_mirror_fails [OF d])
  then have push: "fst (LookupPushEndpoints s repoName w) = Inl e1"
    by (cases "lookupEndpoints s repoName w") (simp add: LookupPushEndpoints_def)
  from f m1 pull push show ?thesis by (simp add: LookupPullEndpoints_def)
qed

theorem mirror_failure_aborts_witness:
  "'':mirror'' \<in> set (Mirrors broken_mirror_env) \<and>
   fst (tlsConfigForMirror broken_mirror_env '':mirror'' example_world) =
     Inl (ParseError ''missing protocol scheme'') \<and>
   fst (LookupPullEndpoints broken_mirror_env ''example.com/app'' example_world) =
     Inl (ParseError ''missing protocol scheme'') \<and>
   fst (LookupPushEndpoints broken_mirror_env ''example.com/app'' example_world) =
     Inl (ParseError ''missing protocol scheme'')"
proof -
  have h1: "'':mirror'' \<in> set (Mirrors broken_mirror_env)"
    by (simp add: broken_mirror_env_def)
  have h2: "fst (tlsConfigForMirror broken_mirror_env '':mirror'' example_world) =
     Inl (ParseError ''missing protocol scheme'')"
    by (simp add: tlsConfigForMirror_def broken_mirror_env_def example_env_def HasPrefix_def)
  have f: "find (\<lambda>m. isl (fst (tlsConfigForMirror broken_mirror_env m example_world)))
        (Mirrors broken_mirror_env) = Some '':mirror''"
    by (simp add: tlsConfigForMirror_def Service_TLSConfig_def alloc_def broken_mirror_env_def
        example_env_def HasPrefix_def)
  from mirror_failure_aborts [OF h1 h2, of "''example.com/app''" example_world] f h2
  have "fst (LookupPullEndpoints broken_mirror_env ''example.com/app'' example_world) =
          Inl (ParseError ''missing protocol scheme'') \<and>
        fst (LookupPushEndpoints broken_mirror_env ''example.com/app'' example_world) =
          Inl (ParseError ''missing protocol scheme'')"
    by auto
  with h1 h2 show ?thesis by simp
qed

text \<open>
  Claim C7, as stated, fails: the mirrors are resolved before the name is looked at, so
  with a mirror whose address does not parse the name \<^verbatim>\<open>noSlashHere\<close> is answered with
  the parse error of that mirror, not with the invalid-name error.
\<close>

theorem invalid_name_broken_mirror_counterexample:
  "\<not> HasPrefix ''noSlashHere'' (DefaultNamespace @ ''/'') \<and>
   CHR ''/'' \<notin> set ''noSlashHere'' \<and>
   fst (LookupPullEndpoints broken_mirror_env ''noSlashHere'' example_world) =
     Inl (ParseError ''missing protocol scheme'')"
  by (simp add: LookupPullEndpoints_def lookupEndpoints_def alloc_def Printf_def
      tlsConfigForMirror_def Service_TLSConfig_def broken_mirror_env_def example_env_def
      example_world_def HasPrefix_def DefaultNamespace_def Let_def)

text \<open>
  Claim C7, amended. For a repository name that does not begin with \<^verbatim>\<open>library/\<close> and
  that contains no \<^verbatim>\<open>/\<close> or begins with one, \<open>LookupPullEndpoints\<close> fails and returns
  no candidates. The error is the invalid-name error when trust resolution succeeds for
  every configured mirror; otherwise it is the error of a mirror whose trust resolution
  fails.
\<close>

theorem invalid_name_rejected:
  assumes "\<not> HasPrefix repoName (DefaultNamespace @ ''/'')"
    and "CHR ''/'' \<notin> set repoName \<or> HasPrefix repoName ''/''"
  shows "isl (fst (LookupPullEndpoints s repoName w)) \<and>
         (mirrors_resolve s \<longrightarrow>
            fst (LookupPullEndpoints s repoName w) =
              Inl (InvalidRepoName (''invalid repo name: missing '/':  '' @ repoName))) \<and>
         (\<not> mirrors_resolve s \<longrightarrow>
            (\<exists>m e. m \<in> set (Mirrors s) \<and> fst (tlsConfigForMirror s m w) = Inl e \<and>
                   fst (LookupPullEndpoints s repoName w) = Inl e))"
proof (cases "mirrors_resolve s")
  case True
  from assms(2) have "IndexRune repoName CHR ''/'' \<le> 0" by (simp add: IndexRune_nonpositive)
  from lookupEndpoints_invalid [OF True assms(1) this, of w] True show ?thesis
    by (simp add: LookupPullEndpoints_def)
next
  case False
  from lookupEndpoints_unresolved [OF False] obtain m e where
    "m \<in> set (Mirrors s)" "mirror_policy s m = Inl e"
    "\<forall>repoName w. fst (lookupEndpoints s repoName w) = Inl e" by blast
  then have "m \<in> set (Mirrors s) \<and> fst (tlsConfigForMirror s m w) = Inl e \<and>
             fst (LookupPullEndpoints s repoName w) = Inl e"
    by (simp add: tlsConfigForMirror_fst LookupPullEndpoints_def)
  then have "isl (fst (LookupPullEndpoints s repoName w)) \<and>
      (\<exists>m e. m \<in> set (Mirrors s) \<and> fst (tlsConfigForMirror s m w) = Inl e \<and>
                   fst (LookupPullEndpoints s repoName w) = Inl e)"
    by auto
  with False show ?thesis by simp
qed

theorem invalid_name_rejected_witness:
  "\<not> HasPrefix ''noSlashHere'' (DefaultNamespace @ ''/'') \<and>
   CHR ''/'' \<notin> set ''noSlashHere'' \<and>
   \<not> HasPrefix ''/leadingslash'' (DefaultNamespace @ ''/'') \<and>
   HasPrefix ''/leadingslash'' ''/'' \<and>
   mirrors_resolve example_env \<and>
   fst (LookupPullEndpoints example_env ''noSlashHere'' example_world) =
     Inl (InvalidRepoName ''invalid repo name: missing '/':  noSlashHere'') \<and>
   fst (LookupPullEndpoints example_env ''/leadingslash'' example_world) =
     Inl (InvalidRepoName ''invalid repo name: missing '/':  /leadingslash'')"
proof -
  have a1: "\<not> HasPrefix ''noSlashHere'' (DefaultNamespace @ ''/'')"
    by (simp add: HasPrefix_def DefaultNamespace_def)
  have a2: "CHR ''/'' \<notin> set ''noSlashHere''" by simp
  have b1: "\<not> HasPrefix ''/leadingslash'' (DefaultNamespace @ ''/'')"
    by (simp add: HasPrefix_def DefaultNamespace_def)
  have b2: "HasPrefix ''/leadingslash'' ''/''" by (simp add: HasPrefix_def)
  have r: "mirrors_resolve example_env"
    by (simp add: mirrors_resolve_def mirror_policy_def example_env_def HasPrefix_def)
  from a2 have a2': "CHR ''/'' \<notin> set ''noSlashHere'' \<or> HasPrefix ''noSlashHere'' ''/''" ..
  from b2 have b2': "CHR ''/'' \<notin> set ''/leadingslash'' \<or> HasPrefix ''/leadingslash'' ''/''" ..
  from invalid_name_rejected [OF a1 a2', of example_env example_world] r
  have a: "fst (LookupPullEndpoints example_env ''noSlashHere'' example_world) =
     Inl (InvalidRepoName ''invalid repo name: missing '/':  noSlashHere'')" by simp
  from invalid_name_rejected [OF b1 b2', of example_env example_world] r
  have b: "fst (LookupPullEndpoints example_env ''/leadingslash'' example_world) =
     Inl (InvalidRepoName ''invalid repo name: missing '/':  /leadingslash'')" by simp
  from a1 a2 b1 b2 r a b show ?thesis by (intro conjI)
qed

text \<open>
  Claim C8. A result, read through its pointers, is the same from any two states: two calls
  of \<open>LookupPullEndpoints\<close>, or of \<open>LookupPushEndpoints\<close>, with the same name and the
  same configuration give the same candidates in the same order, or the same error, also
  when the second call starts in the state the first one left.
\<close>

theorem lookup_deterministic:
  "result_view (LookupPullEndpoints s repoName w1) =
     result_view (LookupPullEndpoints s repoName w2) \<and>
   result_view (LookupPushEndpoints s repoName w1) =
     result_view (LookupPushEndpoints s repoName w2) \<and>
   result_view (LookupPullEndpoints s repoName (snd (LookupPullEndpoints s repoName w1))) =
     result_view (LookupPullEndpoints s repoName w1)"
proof -
  have pull: "result_view (lookupEndpoints s repoName w) =
              result_view (lookupEndpoints s repoName w')" for w w'
    by (rule result_view_lookupEndpoints)
  have push: "result_view (LookupPushEndpoints s repoName w1) =
              result_view (LookupPushEndpoints s repoName w2)"
    unfolding result_view_push by (simp only: pull [of w1 w2])
  from pull [of w1 w2] push pull [of "snd (lookupEndpoints s repoName w1)" w1]
  show ?thesis unfolding LookupPullEndpoints_def by (intro conjI)
qed

text \<open>
  Claim C9, as stated, fails: \<open>lookupEndpoints\<close> opens \<^verbatim>\<open>/tmp/myDocker.log\<close> and appends
  to it. From a state with an empty log file, the file begins with three lines after one
  call.
\<close>

theorem lookup_writes_log_counterexample:
  "log_lines example_world = [] \<and>
   take 3 (log_lines (snd (LookupPullEndpoints example_env ''example.com/app'' example_world))) =
     [LogRepoName ''example.com/app'', LogMirror ''http://mirror.example'',
      LogSecure ''https://example.com''] \<and>
   snd (LookupPullEndpoints example_env ''example.com/app'' example_world) \<noteq> example_world"
proof -
  have a: "log_lines example_world = []" by (simp add: example_world_def)
  have b: "take 3 (log_lines (snd (LookupPullEndpoints example_env ''example.com/app''
        example_world))) =
     [LogRepoName ''example.com/app'', LogMirror ''http://mirror.example'',
      LogSecure ''https://example.com'']"
    by (simp add: LookupPullEndpoints_def lookupEndpoints_def alloc_def Printf_def
      tlsConfigForMirror_def Service_TLSConfig_def host_endpoints_def example_env_def
      example_world_def HasPrefix_def DefaultNamespace_def Let_def)
  have "snd (LookupPullEndpoints example_env ''example.com/app'' example_world) \<noteq>
        example_world"
  proof
    assume "snd (LookupPullEndpoints example_env ''example.com/app'' example_world) =
            example_world"
    with b have "take 3 (log_lines example_world) =
     [LogRepoName ''example.com/app'', LogMirror ''http://mirror.example'',
      LogSecure ''https://example.com'']" by simp
    with a show False by simp
  qed
  with a b show ?thesis by (intro conjI)
qed

text \<open>
  Claim C9, amended. Apart from its result, a call of \<open>LookupPullEndpoints\<close> or
  \<open>LookupPushEndpoints\<close> changes the log file \<^verbatim>\<open>/tmp/myDocker.log\<close> only, by appending
  to it: when the file can be opened, the lines it held are kept and the first line added
  logs the repository name; when it cannot, it is unchanged. The policy objects that
  existed before the call keep their addresses and values (new ones are allocated after
  them), and the two calls leave the same state.
\<close>

theorem lookup_effects:
  "log_openable (snd (LookupPullEndpoints s repoName w)) = log_openable w \<and>
   prefix (tls_heap w) (tls_heap (snd (LookupPullEndpoints s repoName w))) \<and>
   prefix (log_lines w @ (if log_openable w then [LogRepoName repoName] else []))
     (log_lines (snd (LookupPullEndpoints s repoName w))) \<and>
   (log_openable w \<or> log_lines (snd (LookupPullEndpoints s repoName w)) = log_lines w) \<and>
   snd (LookupPushEndpoints s repoName w) = snd (LookupPullEndpoints s repoName w)"
proof -
  let ?w2 = "Printf (log_openable w) (LogRepoName repoName) (snd (alloc (ServerDefault s) w))"
  let ?w' = "snd (lookupEndpoints s repoName w)"
  have f: "frame (log_openable w) ?w2 ?w'" by (rule frame_lookupEndpoints)
  have o2: "log_openable ?w2 = log_openable w" by (simp add: alloc_def)
  have h2: "prefix (tls_heap w) (tls_heap ?w2)" by (simp add: alloc_def)
  have l2: "log_lines ?w2 = log_lines w @ (if log_openable w then [LogRepoName repoName] else [])"
    by (simp add: alloc_def Printf_def)
  from f o2 have a: "log_openable ?w' = log_openable w" by (simp add: frame_def)
  from f have "prefix (tls_heap ?w2) (tls_heap ?w')" by (simp add: frame_def)
  with h2 have b: "prefix (tls_heap w) (tls_heap ?w')" by (rule prefix_order.order_trans)
  from f have c: "prefix (log_lines w @ (if log_openable w then [LogRepoName repoName] else []))
     (log_lines ?w')" by (simp add: frame_def l2)
  have d: "log_openable w \<or> log_lines ?w' = log_lines w"
  proof (cases "log_openable w")
    case True
    then show ?thesis by simp
  next
    case False
    with f have "log_lines ?w' = log_lines ?w2" by (simp add: frame_def)
    with False show ?thesis by (simp add: alloc_def Printf_def)
  qed
  have e: "snd (LookupPushEndpoints s repoName w) = ?w'"
    by (cases "lookupEndpoints s repoName w")
       (simp add: LookupPushEndpoints_def split: sum.splits)
  from a b c d e show ?thesis unfolding LookupPullEndpoints_def by (intro conjI)
qed

text \<open>
  Claim C10, as stated, fails: a name under \<^verbatim>\<open>library/\<close> does not always resolve. The
  mirrors come first, and with a mirror whose address does not parse the call fails with
  that mirror's parse error.
\<close>

theorem official_name_broken_mirror_counterexample:
  "HasPrefix ''library/ubuntu'' (DefaultNamespace @ ''/'') \<and>
   fst (LookupPullEndpoints broken_mirror_env ''library/ubuntu'' example_world) =
     Inl (ParseError ''missing protocol scheme'')"
  by (simp add: LookupPullEndpoints_def lookupEndpoints_def alloc_def Printf_def
      tlsConfigForMirror_def Service_TLSConfig_def broken_mirror_env_def example_env_def
      example_world_def HasPrefix_def DefaultNamespace_def Let_def)

text \<open>
  Claim C10, amended. A repository name that begins with \<^verbatim>\<open>library/\<close>, the name
  \<^verbatim>\<open>library/\<close> itself included, never gets the invalid-name error: the prefix test comes
  before the search for \<^verbatim>\<open>/\<close>. When trust resolution succeeds for every configured mirror
  the call succeeds, with the canonical endpoints after the mirror candidates; otherwise
  it fails with the error of a mirror whose trust resolution fails.
\<close>

theorem official_name_never_invalid:
  assumes "HasPrefix repoName (DefaultNamespace @ ''/'')"
  shows "(\<forall>msg. fst (LookupPullEndpoints s repoName w) \<noteq> Inl (InvalidRepoName msg)) \<and>
         (mirrors_resolve s \<longrightarrow>
            (\<exists>out. fst (LookupPullEndpoints s repoName w) = Inr out \<and>
               take (length (Mirrors s)) out =
                 mirror_candidates (Suc (length (tls_heap w))) (Mirrors s) \<and>
               drop (length (Mirrors s)) out =
                 \<lparr>Mirror = False, URL = DefaultV2Registry s, Version = APIVersion2,
                   Official = True, TrimHostname = True, TLSConfig = length (tls_heap w),
                   VersionHeader = [], Versions = []\<rparr> #
                 (if GOOS s = ''linux''
                  then [\<lparr>Mirror = False, URL = DefaultV1Registry s, Version = APIVersion1,
                          Official = True, TrimHostname = True,
                          TLSConfig = length (tls_heap w), VersionHeader = [],
                          Versions = []\<rparr>]
                  else []))) \<and>
         (\<not> mirrors_resolve s \<longrightarrow>
            (\<exists>m e. m \<in> set (Mirrors s) \<and> fst (tlsConfigForMirror s m w) = Inl e \<and>
                   fst (LookupPullEndpoints s repoName w) = Inl e))"
proof (cases "mirrors_resolve s")
  case True
  from lookupEndpoints_official_fst [OF True assms, of w] True show ?thesis
    by (simp add: LookupPullEndpoints_def official_candidates_def)
next
  case False
  from lookupEndpoints_unresolved [OF False] obtain m e where
    me: "m \<in> set (Mirrors s)" "mirror_policy s m = Inl e"
    "\<forall>repoName w. fst (lookupEndpoints s repoName w) = Inl e" by blast
  have ne: "e \<noteq> InvalidRepoName msg" for msg
    using mirror_policy_not_invalid [of s m msg] me(2) by simp
  from me have x: "m \<in> set (Mirrors s) \<and> fst (tlsConfigForMirror s m w) = Inl e \<and>
             fst (LookupPullEndpoints s repoName w) = Inl e"
    by (simp add: tlsConfigForMirror_fst LookupPullEndpoints_def)
  then have "\<exists>m e. m \<in> set (Mirrors s) \<and> fst (tlsConfigForMirror s m w) = Inl e \<and>
                   fst (LookupPullEndpoints s repoName w) = Inl e" by blast
  moreover from x ne have "\<forall>msg. fst (LookupPullEndpoints s repoName w) \<noteq>
      Inl (InvalidRepoName msg)" by simp
  ultimately show ?thesis using False by simp
qed

theorem official_name_never_invalid_witness:
  "HasPrefix ''library/'' (DefaultNamespace @ ''/'') \<and> mirrors_resolve example_env \<and>
   map URL (projr (fst (LookupPullEndpoints example_env ''library/'' example_world))) =
     [''http://mirror.example'', ''https://registry-1.docker.io'', ''https://index.docker.io''] \<and>
   \<not> isl (fst (LookupPullEndpoints example_env ''library/'' example_world))"
proof -
  have h: "HasPrefix ''library/'' (DefaultNamespace @ ''/'')"
    by (simp add: HasPrefix_def DefaultNamespace_def)
  have r: "mirrors_resolve example_env"
    by (simp add: mirrors_resolve_def mirror_policy_def example_env_def HasPrefix_def)
  have m: "Mirrors example_env = [''http://mirror.example'']" by (simp add: example_env_def)
  from official_name_never_invalid [OF h, of example_env example_world] r
  obtain out where o: "fst (LookupPullEndpoints example_env ''library/'' example_world) = Inr out"
    and t: "take (length (Mirrors example_env)) out =
              mirror_candidates (Suc (length (tls_heap example_world))) (Mirrors example_env)"
    and d: "drop (length (Mirrors example_env)) out =
                 \<lparr>Mirror = False, URL = DefaultV2Registry example_env, Version = APIVersion2,
                   Official = True, TrimHostname = True,
                   TLSConfig = length (tls_heap example_world),
                   VersionHeader = [], Versions = []\<rparr> #
                 (if GOOS example_env = ''linux''
                  then [\<lparr>Mirror = False, URL = DefaultV1Registry example_env,
                          Version = APIVersion1, Official = True, TrimHostname = True,
                          TLSConfig = length (tls_heap example_world), VersionHeader = [],
                          Versions = []\<rparr>]
                  else [])"
    by blast
  have "out = take (length (Mirrors example_env)) out @ drop (length (Mirrors example_env)) out"
    by simp
  then have "map URL out =
     [''http://mirror.example'', ''https://registry-1.docker.io'', ''https://index.docker.io'']"
    unfolding t d by (simp add: m mirror_candidates_def enumerate_eq_zip example_env_def)
  with o h r show ?thesis by simp
qed

end
